theory Spec2Isabelle
  imports Complex_Main "HOL-Library.Word"
begin

section \<open>Python values\<close>

text \<open>
  The values \<^verbatim>\<open>json.loads\<close> returns: \<^verbatim>\<open>None\<close>, booleans, integers, floats, strings,
  lists and dictionaries. A Python \<^verbatim>\<open>str\<close> is the list of its code points (those below
  256, which is what \<^typ>\<open>char\<close> holds); a dictionary is the list of its items, keys distinct.
  A float is its real value (no NaN, no infinity).
\<close>

datatype json =
    JNull
  | JBool bool
  | JInt int
  | JFloat real
  | JStr string
  | JArr "json list"
  | JObj "(string \<times> json) list"

text \<open>
  The exceptions that the streaming and verification code can raise on such values and
  that nothing catches. A \<^verbatim>\<open>requests.RequestException\<close> is caught by \<^verbatim>\<open>stream_chat\<close>
  and modelled with the transport below.
\<close>

datatype exn = AttributeError | TypeError

definition ebind :: "exn + 'a \<Rightarrow> ('a \<Rightarrow> exn + 'b) \<Rightarrow> exn + 'b" where
  "ebind m f = (case m of Inl e \<Rightarrow> Inl e | Inr v \<Rightarrow> f v)"

fun fold_exn :: "('s \<Rightarrow> 'a \<Rightarrow> exn + 's) \<Rightarrow> 's \<Rightarrow> 'a list \<Rightarrow> exn + 's" where
  "fold_exn f s [] = Inr s"
| "fold_exn f s (x # xs) = ebind (f s x) (\<lambda>s'. fold_exn f s' xs)"

text \<open>Truth value testing, as \<^verbatim>\<open>if v\<close>, \<^verbatim>\<open>v or d\<close> apply it.\<close>

fun truthy :: "json \<Rightarrow> bool" where
  "truthy JNull = False"
| "truthy (JBool b) = b"
| "truthy (JInt i) = (i \<noteq> 0)"
| "truthy (JFloat r) = (r \<noteq> 0)"
| "truthy (JStr s) = (s \<noteq> [])"
| "truthy (JArr xs) = (xs \<noteq> [])"
| "truthy (JObj kvs) = (kvs \<noteq> [])"

definition py_or :: "json \<Rightarrow> json \<Rightarrow> json" where
  "py_or v d = (if truthy v then v else d)"

text \<open>\<^verbatim>\<open>x.get(k, d)\<close>: only a dictionary has the method.\<close>

definition dict_get :: "json \<Rightarrow> string \<Rightarrow> json \<Rightarrow> exn + json" where
  "dict_get x k d =
     (case x of
        JObj kvs \<Rightarrow> Inr (case map_of kvs k of None \<Rightarrow> d | Some v \<Rightarrow> v)
      | _ \<Rightarrow> Inl AttributeError)"

text \<open>
  \<^verbatim>\<open>for c in x\<close>: a list gives its elements, a dictionary its keys, a string its
  characters; the other values are not iterable.
\<close>

definition py_iter :: "json \<Rightarrow> exn + json list" where
  "py_iter x =
     (case x of
        JArr xs \<Rightarrow> Inr xs
      | JObj kvs \<Rightarrow> Inr (map (\<lambda>kv. JStr (fst kv)) kvs)
      | JStr s \<Rightarrow> Inr (map (\<lambda>c. JStr [c]) s)
      | _ \<Rightarrow> Inl TypeError)"

text \<open>\<^verbatim>\<open>s += v\<close> for a string \<^verbatim>\<open>s\<close>: \<^verbatim>\<open>v\<close> must be a string.\<close>

definition str_add :: "string \<Rightarrow> json \<Rightarrow> exn + string" where
  "str_add s v = (case v of JStr t \<Rightarrow> Inr (s @ t) | _ \<Rightarrow> Inl TypeError)"

text \<open>\<^verbatim>\<open>v > 0\<close>: defined on numbers (a boolean is the integer 0 or 1).\<close>

definition py_gt0 :: "json \<Rightarrow> exn + bool" where
  "py_gt0 v =
     (case v of
        JInt i \<Rightarrow> Inr (i > 0)
      | JBool b \<Rightarrow> Inr b
      | JFloat r \<Rightarrow> Inr (r > 0)
      | _ \<Rightarrow> Inl TypeError)"

subsection \<open>Strings\<close>

text \<open>The code points below 256 that \<^verbatim>\<open>str.strip()\<close> removes.\<close>

definition is_space :: "char \<Rightarrow> bool" where
  "is_space c = (of_char c \<in> {9::nat, 10, 11, 12, 13, 28, 29, 30, 31, 32, 133, 160})"

definition strip :: "string \<Rightarrow> string" where
  "strip s = rev (dropWhile is_space (rev (dropWhile is_space s)))"

definition startswith :: "string \<Rightarrow> string \<Rightarrow> bool" where
  "startswith s p = (take (length p) s = p)"

text \<open>\<^verbatim>\<open>sep.join(xs)\<close>\<close>

fun join :: "string \<Rightarrow> string list \<Rightarrow> string" where
  "join sep [] = []"
| "join sep [x] = x"
| "join sep (x # y # ys) = x @ sep @ join sep (y # ys)"

definition newline :: string where
  "newline = [CHR 0x0A]"

subsection \<open>The library the code calls\<close>

text \<open>
  The functions of the standard library whose results the code only passes on:
  \<^item> \<open>sha256 s\<close> is the digest \<^verbatim>\<open>hashlib.sha256(s.encode()).digest()\<close>, 32 bytes read as a
    256-bit number;
  \<^item> \<open>json_loads s\<close> is \<^verbatim>\<open>json.loads(s)\<close>, \<open>None\<close> when it raises \<^verbatim>\<open>JSONDecodeError\<close>;
  \<^item> \<open>json_dumps v\<close> is \<^verbatim>\<open>json.dumps(v, sort_keys=True)\<close>;
  \<^item> \<open>decode_utf8 b\<close> is \<^verbatim>\<open>b.decode("utf-8")\<close>, \<open>None\<close> when it raises
    \<^verbatim>\<open>UnicodeDecodeError\<close>, and \<open>decode_utf8_replace b\<close> is
    \<^verbatim>\<open>b.decode("utf-8", errors="replace")\<close>;
  \<^item> \<open>path_join d f\<close> is \<^verbatim>\<open>str(Path(d) / f)\<close>.
\<close>

record env =
  sha256 :: "string \<Rightarrow> 256 word"
  json_loads :: "string \<Rightarrow> json option"
  json_dumps :: "json \<Rightarrow> string"
  decode_utf8 :: "string \<Rightarrow> string option"
  decode_utf8_replace :: "string \<Rightarrow> string"
  path_join :: "string \<Rightarrow> string \<Rightarrow> string"

text \<open>\<^verbatim>\<open>hexdigest()\<close>: the 64 hexadecimal digits of the digest, most significant first.\<close>

definition hex_digit :: "nat \<Rightarrow> char" where
  "hex_digit n = ''0123456789abcdef'' ! n"

definition nibble :: "256 word \<Rightarrow> nat \<Rightarrow> nat" where
  "nibble w i = unat (take_bit 4 (drop_bit (4 * i) w))"

definition hexdigest :: "256 word \<Rightarrow> string" where
  "hexdigest w = map (\<lambda>i. hex_digit (nibble w (63 - i))) [0..<64]"

section \<open>Receipt verification (verify_receipt.py)\<close>

datatype status = PASS | FAIL | SKIP

text \<open>
  A \<^verbatim>\<open>Check\<close> carries a name, a status and a message for the reader; no code reads the
  message, and the model leaves it out.
\<close>

record Check =
  name :: string
  status :: status

text \<open>
  The report. The fields \<^verbatim>\<open>receipt_path\<close>, \<^verbatim>\<open>model\<close>, \<^verbatim>\<open>prompt_tokens\<close> and
  \<^verbatim>\<open>completion_tokens\<close> carry the prefix \<open>vr_\<close>: \<^verbatim>\<open>StreamResult\<close> has fields
  of the same names.
\<close>

record VerifyResult =
  vr_receipt_path :: string
  checks :: "Check list"
  vr_model :: string
  event_count :: nat
  vr_prompt_tokens :: json
  vr_completion_tokens :: json
  content_chars :: nat
  content_deltas :: nat

definition verified :: "VerifyResult \<Rightarrow> bool" where
  "verified r = list_all (\<lambda>c. status c \<noteq> FAIL) (checks r)"

text \<open>
  The receipt dictionary loaded from a receipt file. A field is \<open>None\<close> when the key is
  absent; the code reads every field with \<^verbatim>\<open>data.get\<close> and a default.
\<close>

record receipt =
  rc_model :: "string option"
  rc_timestamp :: "int option"
  rc_events_hash :: "string option"
  rc_payload_hash :: "string option"
  rc_event_count :: "nat option"
  rc_raw_events :: "string list option"

definition hash :: "env \<Rightarrow> string \<Rightarrow> string" where
  "hash env text = hexdigest (sha256 env text)"

definition get_raw_events :: "receipt \<Rightarrow> string list" where
  "get_raw_events data = (case rc_raw_events data of None \<Rightarrow> [] | Some xs \<Rightarrow> xs)"

text \<open>Check 1: events_hash\<close>

definition check_events_hash :: "env \<Rightarrow> receipt \<Rightarrow> Check" where
  "check_events_hash env data =
     (let stored_events_hash = (case rc_events_hash data of None \<Rightarrow> [] | Some h \<Rightarrow> h);
          derived_events_hash = hash env (join newline (get_raw_events data))
      in if stored_events_hash = [] then \<lparr>name = ''events_hash'', status = SKIP\<rparr>
         else if derived_events_hash = stored_events_hash
           then \<lparr>name = ''events_hash'', status = PASS\<rparr>
         else \<lparr>name = ''events_hash'', status = FAIL\<rparr>)"

text \<open>Check 2: payload_hash\<close>

definition check_payload_hash :: "receipt \<Rightarrow> Check" where
  "check_payload_hash data =
     (let stored_payload_hash = (case rc_payload_hash data of None \<Rightarrow> [] | Some h \<Rightarrow> h)
      in if stored_payload_hash = [] then \<lparr>name = ''payload_hash'', status = SKIP\<rparr>
         else if length stored_payload_hash = 64
                 \<and> list_all (\<lambda>c. c \<in> set ''0123456789abcdef'') stored_payload_hash
           then \<lparr>name = ''payload_hash'', status = PASS\<rparr>
         else \<lparr>name = ''payload_hash'', status = FAIL\<rparr>)"

text \<open>
  Check 3: event parsing. The loop returns the number of parse errors and the list
  \<^verbatim>\<open>parsed_events\<close>. An entry of that list is a Python value: \<^verbatim>\<open>None\<close> (\<open>JNull\<close>) for
  the sentinel and for a frame that does not parse, and otherwise what \<^verbatim>\<open>json.loads\<close>
  returned, which is \<^verbatim>\<open>None\<close> too when the frame is the JSON text \<^verbatim>\<open>null\<close>.
\<close>

definition is_done :: "string \<Rightarrow> bool" where
  "is_done ev = (strip ev = ''[DONE]'')"

fun parse_events :: "env \<Rightarrow> string list \<Rightarrow> nat \<times> json list" where
  "parse_events env [] = (0, [])"
| "parse_events env (ev # rest) =
     (let (n, ps) = parse_events env rest
      in if is_done ev then (n, JNull # ps)
         else (case json_loads env ev of
                 Some obj \<Rightarrow> (n, obj # ps)
               | None \<Rightarrow> (n + 1, JNull # ps)))"

text \<open>
  Check 4: content reconstruction. The state is \<^verbatim>\<open>(content, result.content_deltas)\<close>;
  an entry that is \<^verbatim>\<open>None\<close> is passed over.
\<close>

definition reconstruct_choice :: "string \<times> nat \<Rightarrow> json \<Rightarrow> exn + string \<times> nat" where
  "reconstruct_choice acc choice =
     ebind (dict_get choice ''delta'' JNull) (\<lambda>d.
       let delta = py_or d (JObj []) in
       ebind (dict_get delta ''content'' JNull) (\<lambda>c.
         ebind (str_add (fst acc) (py_or c (JStr []))) (\<lambda>content.
           Inr (content, snd acc + (if truthy c then 1 else 0)))))"

fun reconstruct_content :: "string \<times> nat \<Rightarrow> json list \<Rightarrow> exn + string \<times> nat" where
  "reconstruct_content acc [] = Inr acc"
| "reconstruct_content acc (obj # rest) =
     (if obj = JNull then reconstruct_content acc rest
      else ebind (dict_get obj ''choices'' (JArr [])) (\<lambda>cs.
             ebind (py_iter cs) (\<lambda>choices.
               ebind (fold_exn reconstruct_choice acc choices) (\<lambda>acc'.
                 reconstruct_content acc' rest))))"

text \<open>
  Check 5: usage tokens. The scan runs over \<^verbatim>\<open>reversed(parsed_events)\<close>, passes over the
  entries that are \<^verbatim>\<open>None\<close> and stops at the first frame one of whose counts is truthy.
\<close>

fun find_usage :: "json list \<Rightarrow> exn + (json \<times> json) option" where
  "find_usage [] = Inr None"
| "find_usage (obj # rest) =
     (if obj = JNull then find_usage rest
      else ebind (dict_get obj ''usage'' JNull) (\<lambda>u.
             let usage = py_or u (JObj []) in
             ebind (dict_get usage ''prompt_tokens'' (JInt 0)) (\<lambda>pt.
               ebind (dict_get usage ''completion_tokens'' (JInt 0)) (\<lambda>ct.
                 if truthy pt \<or> truthy ct then Inr (Some (pt, ct)) else find_usage rest))))"

text \<open>The check that closes check 5, on the counts the scan found (0 and 0 if none).\<close>

definition check_usage :: "json \<times> json \<Rightarrow> exn + Check" where
  "check_usage tokens =
     ebind (py_gt0 (fst tokens)) (\<lambda>p.
       ebind (if p then Inr True else py_gt0 (snd tokens)) (\<lambda>has_usage.
         Inr \<lparr>name = ''usage'', status = (if has_usage then PASS else SKIP)\<rparr>))"

definition verify_receipt :: "env \<Rightarrow> receipt \<Rightarrow> string \<Rightarrow> exn + VerifyResult" where
  "verify_receipt env data path =
     (let raw_events = get_raw_events data;
          c1 = check_events_hash env data;
          c2 = check_payload_hash data;
          (parse_errors, parsed_events) = parse_events env raw_events;
          c3 = \<lparr>name = ''event parsing'', status = (if parse_errors = 0 then PASS else FAIL)\<rparr>
      in ebind (reconstruct_content ([], 0) parsed_events) (\<lambda>(content, deltas).
           let c4 = \<lparr>name = ''content'', status = (if length content > 0 then PASS else FAIL)\<rparr>
           in ebind (find_usage (rev parsed_events)) (\<lambda>u.
                let tokens = (case u of None \<Rightarrow> (JInt 0, JInt 0) | Some p \<Rightarrow> p)
                in ebind (check_usage tokens) (\<lambda>c5.
                     Inr \<lparr>vr_receipt_path = path,
                          checks = [c1, c2, c3, c4, c5],
                          vr_model = (case rc_model data of None \<Rightarrow> ''unknown'' | Some m \<Rightarrow> m),
                          event_count = length raw_events,
                          vr_prompt_tokens = fst tokens,
                          vr_completion_tokens = snd tokens,
                          content_chars = length content,
                          content_deltas = deltas\<rparr>))))"

text \<open>
  The tamper simulation of \<^verbatim>\<open>main\<close>: a copy of the receipt whose raw-frame list has one
  fabricated frame inserted at its midpoint. \<open>fake_event\<close> is the text \<^verbatim>\<open>json.dumps\<close>
  returns for the constant dictionary of the source.
\<close>

definition fake_event :: string where
  "fake_event =
     ''{\"choices\": [{\"delta\": {\"content\": \" [INJECTED_TOKEN]\"}, \"finish_reason\": null}]}''"

definition tamper :: "receipt \<Rightarrow> receipt" where
  "tamper data =
     (let raw = get_raw_events data;
          mid = length raw div 2
      in data\<lparr>rc_raw_events := Some (take mid raw @ [fake_event] @ drop mid raw)\<rparr>)"

section \<open>The stream consumer (ambient_client/streaming.py)\<close>

subsection \<open>The frame decoder\<close>

text \<open>
  A line of the response body is \<^verbatim>\<open>bytes\<close> or \<^verbatim>\<open>str\<close>. An iterator is the list of what
  it gives in turn: a value, or a \<^verbatim>\<open>requests.RequestException\<close> (with its description)
  raised instead of the next value, after which it gives nothing more.
\<close>

datatype raw_line = Bytes string | Str string

datatype 'a item = Item 'a | Raise string

definition decode_line :: "env \<Rightarrow> raw_line \<Rightarrow> string" where
  "decode_line env line =
     (case line of
        Bytes b \<Rightarrow> (case decode_utf8 env b of Some s \<Rightarrow> s | None \<Rightarrow> decode_utf8_replace env b)
      | Str s \<Rightarrow> s)"

fun iter_sse_data :: "env \<Rightarrow> raw_line item list \<Rightarrow> string item list" where
  "iter_sse_data env [] = []"
| "iter_sse_data env (Raise e # rest) = [Raise e]"
| "iter_sse_data env (Item line # rest) =
     (let l = strip (decode_line env line)
      in if startswith l ''data:'' then Item (strip (drop 5 l)) # iter_sse_data env rest
         else iter_sse_data env rest)"

subsection \<open>Content extraction\<close>

definition extract_choice :: "string \<times> string \<Rightarrow> json \<Rightarrow> exn + string \<times> string" where
  "extract_choice acc choice =
     ebind (dict_get choice ''delta'' JNull) (\<lambda>d.
       let delta = py_or d (JObj []) in
       ebind (dict_get delta ''content'' JNull) (\<lambda>c.
         ebind (str_add (fst acc) (py_or c (JStr []))) (\<lambda>content.
           ebind (dict_get delta ''reasoning_content'' JNull) (\<lambda>r.
             ebind (str_add (snd acc) (py_or r (JStr []))) (\<lambda>reasoning.
               Inr (content, reasoning))))))"

definition extract_content_parts :: "json \<Rightarrow> exn + string \<times> string" where
  "extract_content_parts obj =
     ebind (dict_get obj ''choices'' (JArr [])) (\<lambda>cs.
       ebind (py_iter cs) (\<lambda>choices.
         fold_exn extract_choice ([], []) choices))"

text \<open>
  The extraction rule of the consumer, lines 70 to 78 of \<^verbatim>\<open>stream_chat\<close>, applied to the
  payloads of a list in turn with the text accumulated so far: a payload that does not
  parse is passed over, and the content that \<^verbatim>\<open>_extract_content_parts\<close> finds in one
  that parses is appended to the text.
\<close>

fun extraction_rule :: "env \<Rightarrow> string \<Rightarrow> string list \<Rightarrow> exn + string" where
  "extraction_rule env tx [] = Inr tx"
| "extraction_rule env tx (ev # rest) =
     (case json_loads env ev of
        None \<Rightarrow> extraction_rule env tx rest
      | Some obj \<Rightarrow>
          ebind (extract_content_parts obj) (\<lambda>(content, reason).
            extraction_rule env (tx @ content) rest))"

subsection \<open>The session\<close>

text \<open>
  The field \<^verbatim>\<open>text\<close> is \<open>text'\<close> here. The token counts hold whatever value a usage block
  carried, so they are Python values.
\<close>

record StreamResult =
  text' :: string
  reasoning :: string
  ttfb_ms :: "real option"
  ttc_ms :: "real option"
  prompt_tokens :: json
  completion_tokens :: json
  stall_count :: nat
  parse_errors :: nat
  error :: "string option"
  receipt_path :: "string option"

definition new_StreamResult :: StreamResult where
  "new_StreamResult =
     \<lparr>text' = [], reasoning = [], ttfb_ms = None, ttc_ms = None,
      prompt_tokens = JInt 0, completion_tokens = JInt 0,
      stall_count = 0, parse_errors = 0, error = None, receipt_path = None\<rparr>"

text \<open>
  What \<^verbatim>\<open>requests.post\<close> does: it raises a \<^verbatim>\<open>RequestException\<close>, or returns a response;
  \<open>Response e lines\<close> is a response whose \<^verbatim>\<open>raise_for_status()\<close> raises \<open>e\<close> (if any) and
  whose \<^verbatim>\<open>iter_lines()\<close> gives \<open>lines\<close>.
\<close>

datatype http = PostRaises string | Response "string option" "raw_line item list"

text \<open>
  The world outside: \<open>monotonic w k\<close> is what the \<open>k\<close>-th call of \<^verbatim>\<open>time.monotonic()\<close>
  returns and \<open>reads w\<close> counts the calls made; \<open>time_time w\<close> is \<^verbatim>\<open>int(time.time())\<close>;
  \<open>post w\<close> is the HTTP exchange; \<open>files w\<close> maps the path of a written receipt file to
  the receipt written there.
\<close>

record world =
  monotonic :: "nat \<Rightarrow> real"
  reads :: nat
  time_time :: int
  post :: "string \<Rightarrow> json \<Rightarrow> (string \<times> string) list \<Rightarrow> http"
  files :: "string \<Rightarrow> receipt option"

definition now :: "world \<Rightarrow> real \<times> world" where
  "now w = (monotonic w (reads w), w\<lparr>reads := Suc (reads w)\<rparr>)"

text \<open>The local variables of \<^verbatim>\<open>stream_chat\<close> that its loop updates.\<close>

record session =
  result :: StreamResult
  raw_events :: "string list"
  last_chunk_time :: real

text \<open>
  The keyword arguments of \<^verbatim>\<open>stream_chat\<close>. With \<^verbatim>\<open>verbose\<close> the loop prints the content
  as it arrives; standard output is not part of the model.
\<close>

record opts =
  temperature :: "real option"
  max_tokens :: "int option"
  top_p :: "real option"
  stall_threshold_ms :: real
  save_receipt :: bool
  receipt_dir :: string
  verbose :: bool

definition default_opts :: opts where
  "default_opts =
     \<lparr>temperature = None, max_tokens = None, top_p = None, stall_threshold_ms = 2000,
      save_receipt = False, receipt_dir = ''data/receipts'', verbose = False\<rparr>"

definition request_headers :: "string \<Rightarrow> (string \<times> string) list" where
  "request_headers api_key =
     [(''Authorization'', ''Bearer '' @ api_key),
      (''Content-Type'', ''application/json''),
      (''Accept'', ''text/event-stream'')]"

definition build_payload ::
  "string \<Rightarrow> json list \<Rightarrow> real option \<Rightarrow> int option \<Rightarrow> real option \<Rightarrow> json" where
  "build_payload model messages temp maxtok topp =
     JObj ([(''model'', JStr model), (''messages'', JArr messages), (''stream'', JBool True),
            (''stream_options'', JObj [(''include_usage'', JBool True)])]
           @ (case temp of None \<Rightarrow> [] | Some t \<Rightarrow> [(''temperature'', JFloat t)])
           @ (case maxtok of None \<Rightarrow> [] | Some n \<Rightarrow> [(''max_tokens'', JInt n)])
           @ (case topp of None \<Rightarrow> [] | Some p \<Rightarrow> [(''top_p'', JFloat p)]))"

subsection \<open>The receipt generator\<close>

definition digit_char :: "nat \<Rightarrow> char" where
  "digit_char d = ''0123456789'' ! d"

function str_nat :: "nat \<Rightarrow> string" where
  "str_nat n = (if n < 10 then [digit_char n] else str_nat (n div 10) @ [digit_char (n mod 10)])"
  by pat_completeness auto
termination
  by (relation "measure id") auto

definition str_int :: "int \<Rightarrow> string" where
  "str_int i = (if i < 0 then CHR ''-'' # str_nat (nat (- i)) else str_nat (nat i))"

definition replace_char :: "char \<Rightarrow> char \<Rightarrow> string \<Rightarrow> string" where
  "replace_char a b s = map (\<lambda>c. if c = a then b else c) s"

text \<open>
  \<^verbatim>\<open>_write_receipt\<close> returns the path and leaves the receipt in the file of that path.
  The file holds \<^verbatim>\<open>json.dumps(receipt, indent=2)\<close>; the model keeps the receipt itself,
  which is what reading the file back gives. Creating the directory and writing the file
  are taken to succeed. (The functions \<^verbatim>\<open>_write_receipt\<close>, \<^verbatim>\<open>_iter_sse_data\<close>,
  \<^verbatim>\<open>_extract_content_parts\<close>, \<^verbatim>\<open>_build_payload\<close> and \<^verbatim>\<open>_hash\<close> are named here
  without the leading underscore.)
\<close>

definition write_receipt ::
  "env \<Rightarrow> world \<Rightarrow> string \<Rightarrow> string \<Rightarrow> json \<Rightarrow> string list \<Rightarrow> string \<times> world" where
  "write_receipt env w dir model payload raw =
     (let raw_text = join newline raw;
          events_hash = take 16 (hash env raw_text);
          ts = time_time w;
          safe_model = replace_char (CHR '':'') (CHR ''_'') (replace_char (CHR ''/'') (CHR ''_'') model);
          filename = str_int ts @ ''_'' @ safe_model @ ''_'' @ events_hash @ ''.json'';
          path = path_join env dir filename;
          receipt = \<lparr>rc_model = Some model,
                     rc_timestamp = Some ts,
                     rc_events_hash = Some (hash env raw_text),
                     rc_payload_hash = Some (hash env (json_dumps env payload)),
                     rc_event_count = Some (length raw),
                     rc_raw_events = Some raw\<rparr>
      in (path, w\<lparr>files := (files w)(path \<mapsto> receipt)\<rparr>))"

subsection \<open>stream_chat\<close>

text \<open>
  The body of the loop for one decoded frame, in two parts. \<open>note_arrival\<close> is its
  beginning: it reads the clock, counts a stall, sets the time to first byte if it is not
  set, and appends the frame to \<^verbatim>\<open>raw_events\<close>.
\<close>

definition note_arrival :: "real \<Rightarrow> real \<Rightarrow> session \<Rightarrow> world \<Rightarrow> string \<Rightarrow> session \<times> world" where
  "note_arrival t_start threshold st w event_data =
     (let (t, w') = now w;
          gap_ms = (t - last_chunk_time st) * 1000;
          r = result st;
          r1 = (if gap_ms > threshold \<and> ttfb_ms r \<noteq> None
                then r\<lparr>stall_count := stall_count r + 1\<rparr> else r);
          r2 = (if ttfb_ms r1 = None then r1\<lparr>ttfb_ms := Some ((t - t_start) * 1000)\<rparr> else r1)
      in (st\<lparr>result := r2, raw_events := raw_events st @ [event_data], last_chunk_time := t\<rparr>,
          w'))"

text \<open>
  \<open>absorb\<close> is the end of the body, for a frame that parsed to \<open>obj\<close>: the content and
  the usage counts go into the result.
\<close>

definition absorb :: "StreamResult \<Rightarrow> json \<Rightarrow> exn + StreamResult" where
  "absorb r obj =
     ebind (extract_content_parts obj) (\<lambda>(content, reason).
       let r3 = r\<lparr>text' := text' r @ content, reasoning := reasoning r @ reason\<rparr>
       in ebind (dict_get obj ''usage'' JNull) (\<lambda>u.
            let usage = py_or u (JObj []) in
            ebind (dict_get usage ''prompt_tokens'' JNull) (\<lambda>pt.
              let r4 = (if truthy pt then r3\<lparr>prompt_tokens := pt\<rparr> else r3) in
              ebind (dict_get usage ''completion_tokens'' JNull) (\<lambda>ct.
                Inr (if truthy ct then r4\<lparr>completion_tokens := ct\<rparr> else r4)))))"

text \<open>
  The whole body. The result says whether the loop goes on (\<open>True\<close>) or leaves with
  \<^verbatim>\<open>break\<close> (\<open>False\<close>).
\<close>

definition consume_event ::
  "env \<Rightarrow> real \<Rightarrow> real \<Rightarrow> session \<Rightarrow> world \<Rightarrow> string \<Rightarrow> exn + session \<times> world \<times> bool" where
  "consume_event env t_start threshold st w event_data =
     (let (st1, w') = note_arrival t_start threshold st w event_data;
          r = result st1
      in if is_done event_data then Inr (st1, w', False)
         else (case json_loads env event_data of
                 None \<Rightarrow> Inr (st1\<lparr>result := r\<lparr>parse_errors := parse_errors r + 1\<rparr>\<rparr>, w', True)
               | Some obj \<Rightarrow> ebind (absorb r obj) (\<lambda>r'. Inr (st1\<lparr>result := r'\<rparr>, w', True))))"

text \<open>
  The loop over the decoded frames, inside \<^verbatim>\<open>try\<close>: a \<^verbatim>\<open>RequestException\<close> raised by the
  line iterator ends it and is recorded by the \<^verbatim>\<open>except\<close> clause.
\<close>

fun consume ::
  "env \<Rightarrow> real \<Rightarrow> real \<Rightarrow> session \<Rightarrow> world \<Rightarrow> string item list \<Rightarrow> exn + session \<times> world" where
  "consume env t_start threshold st w [] = Inr (st, w)"
| "consume env t_start threshold st w (Raise e # rest) =
     Inr (st\<lparr>result := (result st)\<lparr>error := Some e\<rparr>\<rparr>, w)"
| "consume env t_start threshold st w (Item ev # rest) =
     (case consume_event env t_start threshold st w ev of
        Inl x \<Rightarrow> Inl x
      | Inr (st', w', go_on) \<Rightarrow>
          if go_on then consume env t_start threshold st' w' rest else Inr (st', w'))"

text \<open>The local variables as \<^verbatim>\<open>stream_chat\<close> initialises them, at start time \<open>t\<close>.\<close>

definition new_session :: "real \<Rightarrow> session" where
  "new_session t = \<lparr>result = new_StreamResult, raw_events = [], last_chunk_time = t\<rparr>"

text \<open>The \<^verbatim>\<open>try\<close> statement: the request, the status check and the loop.\<close>

definition try_request ::
  "env \<Rightarrow> real \<Rightarrow> real \<Rightarrow> session \<Rightarrow> world \<Rightarrow> string \<Rightarrow> json \<Rightarrow> (string \<times> string) list
     \<Rightarrow> exn + session \<times> world" where
  "try_request env t_start threshold st w api_url payload headers =
     (case post w api_url payload headers of
        PostRaises e \<Rightarrow> Inr (st\<lparr>result := (result st)\<lparr>error := Some e\<rparr>\<rparr>, w)
      | Response (Some e) lines \<Rightarrow> Inr (st\<lparr>result := (result st)\<lparr>error := Some e\<rparr>\<rparr>, w)
      | Response None lines \<Rightarrow> consume env t_start threshold st w (iter_sse_data env lines))"

text \<open>
  \<open>run_session\<close> is \<^verbatim>\<open>stream_chat\<close> up to the end of its \<^verbatim>\<open>try\<close> statement; it returns the
  local variables, the request body and the start time.
\<close>

definition run_session ::
  "env \<Rightarrow> world \<Rightarrow> string \<Rightarrow> string \<Rightarrow> string \<Rightarrow> json list \<Rightarrow> opts
     \<Rightarrow> exn + session \<times> world \<times> json \<times> real" where
  "run_session env w api_url api_key model messages opts =
     (let payload = build_payload model messages (temperature opts) (max_tokens opts) (top_p opts);
          headers = request_headers api_key;
          (t_start, w1) = now w;
          st = new_session t_start
      in ebind (try_request env t_start (stall_threshold_ms opts) st w1 api_url payload headers)
           (\<lambda>(st', w2). Inr (st', w2, payload, t_start)))"

definition stream_chat ::
  "env \<Rightarrow> world \<Rightarrow> string \<Rightarrow> string \<Rightarrow> string \<Rightarrow> json list \<Rightarrow> opts
     \<Rightarrow> exn + StreamResult \<times> world" where
  "stream_chat env w api_url api_key model messages opts =
     ebind (run_session env w api_url api_key model messages opts) (\<lambda>(st, w2, payload, t_start).
       let (t_end, w3) = now w2;
           r = (result st)\<lparr>ttc_ms := Some ((t_end - t_start) * 1000)\<rparr>
       in if save_receipt opts \<and> raw_events st \<noteq> []
          then (let (path, w4) = write_receipt env w3 (receipt_dir opts) model payload (raw_events st)
                in Inr (r\<lparr>receipt_path := Some path\<rparr>, w4))
          else Inr (r, w3))"

subsection \<open>Verifying a written receipt\<close>

text \<open>
  Reading a receipt file back and verifying it, as \<^verbatim>\<open>main\<close> does with \<^verbatim>\<open>_load_receipt\<close>
  and \<^verbatim>\<open>verify_receipt\<close>; \<open>None\<close> when there is no file of that path (\<^verbatim>\<open>main\<close> exits
  then).
\<close>

definition verify_written :: "env \<Rightarrow> world \<Rightarrow> string \<Rightarrow> (exn + VerifyResult) option" where
  "verify_written env w path = map_option (\<lambda>data. verify_receipt env data path) (files w path)"

section \<open>Notions used to state the properties\<close>

text \<open>
  A data line is a line whose text, decoded and stripped, starts with the marker; its
  payload is what follows the marker, stripped.
\<close>

definition is_data_line :: "env \<Rightarrow> raw_line \<Rightarrow> bool" where
  "is_data_line env line = startswith (strip (decode_line env line)) ''data:''"

definition data_payload :: "env \<Rightarrow> raw_line \<Rightarrow> string" where
  "data_payload env line = strip (drop 5 (strip (decode_line env line)))"

text \<open>The payloads an iterator of frames gives before it raises.\<close>

fun item_payloads :: "'a item list \<Rightarrow> 'a list" where
  "item_payloads [] = []"
| "item_payloads (Raise e # rest) = []"
| "item_payloads (Item x # rest) = x # item_payloads rest"

text \<open>
  The frames of a payload list up to and including its first sentinel: the frames a
  consumer fed with the list takes from it.
\<close>

definition upto_sentinel :: "string list \<Rightarrow> string list" where
  "upto_sentinel ps =
     takeWhile (\<lambda>ev. \<not> is_done ev) ps @ take 1 (dropWhile (\<lambda>ev. \<not> is_done ev) ps)"

text \<open>
  The usage observations of a payload list, for one counter: the value
  \<^verbatim>\<open>(obj.get("usage") or {}).get(key)\<close> of every frame before the first sentinel that
  parses, in order of arrival.
\<close>

definition usage_field :: "string \<Rightarrow> json \<Rightarrow> json" where
  "usage_field key obj =
     (case dict_get obj ''usage'' JNull of
        Inl _ \<Rightarrow> JNull
      | Inr u \<Rightarrow> (case dict_get (py_or u (JObj [])) key JNull of Inl _ \<Rightarrow> JNull | Inr v \<Rightarrow> v))"

definition observations :: "env \<Rightarrow> string \<Rightarrow> string list \<Rightarrow> json list" where
  "observations env key ps =
     map (usage_field key)
       (List.map_filter (json_loads env) (takeWhile (\<lambda>ev. \<not> is_done ev) ps))"

text \<open>
  The specification's rule for a token counter, written from its words: the last
  non-zero value observed, and the initial value when no observation is non-zero.
\<close>

definition spec_last_nonzero :: "json \<Rightarrow> json list \<Rightarrow> json" where
  "spec_last_nonzero init obs =
     (if filter truthy obs = [] then init else last (filter truthy obs))"

text \<open>
  \<open>transport_failure env h e evs\<close>: the HTTP exchange \<open>h\<close> ends in a transport-level
  failure with the description \<open>e\<close> after it has delivered the frames \<open>evs\<close>, none of
  them the sentinel. The failure is raised by \<^verbatim>\<open>requests.post\<close> (connection error,
  timeout) or by \<^verbatim>\<open>raise_for_status\<close>, both before any frame, or by the line iterator
  while the body is read.
\<close>

fun transport_failure :: "env \<Rightarrow> http \<Rightarrow> string \<Rightarrow> string list \<Rightarrow> bool" where
  "transport_failure env (PostRaises e') e evs = (e' = e \<and> evs = [])"
| "transport_failure env (Response (Some e') lines) e evs = (e' = e \<and> evs = [])"
| "transport_failure env (Response None lines) e evs =
     (iter_sse_data env lines = map Item evs @ [Raise e] \<and> list_all (\<lambda>ev. \<not> is_done ev) evs)"

text \<open>
  The frames an HTTP exchange delivers to the loop of the consumer: none when the request
  or the status check raises.
\<close>

fun delivered :: "env \<Rightarrow> http \<Rightarrow> string list" where
  "delivered env (PostRaises e) = []"
| "delivered env (Response (Some e) lines) = []"
| "delivered env (Response None lines) = item_payloads (iter_sse_data env lines)"

text \<open>What one frame does to a token counter whose value is \<open>cur\<close>.\<close>

definition observe :: "env \<Rightarrow> string \<Rightarrow> string \<Rightarrow> json \<Rightarrow> json" where
  "observe env key ev cur =
     (if is_done ev then cur
      else case json_loads env ev of
             None \<Rightarrow> cur
           | Some obj \<Rightarrow> if truthy (usage_field key obj) then usage_field key obj else cur)"

section \<open>An environment for the examples\<close>

text \<open>
  The examples need a library to run with. \<open>test_loads\<close> is \<^verbatim>\<open>json.loads\<close> on the frames
  of the examples (every other text is taken as not parsing); the digest of \<open>test_env\<close>
  is a stand-in that tells texts of different lengths apart, its serialisation of a
  request body is a fixed text, and its decoder and path join are those of ASCII input.
\<close>

definition frame_hi :: string where
  "frame_hi = ''{\"choices\": [{\"delta\": {\"content\": \"Hi\"}}]}''"

definition frame_there :: string where
  "frame_there = ''{\"choices\": [{\"delta\": {\"content\": \" there\"}}]}''"

definition frame_usage_5_0 :: string where
  "frame_usage_5_0 = ''{\"choices\": [], \"usage\": {\"prompt_tokens\": 5, \"completion_tokens\": 0}}''"

definition frame_usage_0_0 :: string where
  "frame_usage_0_0 = ''{\"choices\": [], \"usage\": {\"prompt_tokens\": 0, \"completion_tokens\": 0}}''"

definition frame_usage_12_7 :: string where
  "frame_usage_12_7 = ''{\"choices\": [], \"usage\": {\"prompt_tokens\": 12, \"completion_tokens\": 7}}''"

definition frame_bad :: string where
  "frame_bad = ''{not json''"

definition frame_null :: string where
  "frame_null = ''null''"

definition frame_many :: string where
  "frame_many = ''{\"choices\": [], \"usage\": {\"prompt_tokens\": \"many\"}}''"

definition usage_obj :: "int \<Rightarrow> int \<Rightarrow> json" where
  "usage_obj p c =
     JObj [(''choices'', JArr []),
           (''usage'', JObj [(''prompt_tokens'', JInt p), (''completion_tokens'', JInt c)])]"

definition content_obj :: "string \<Rightarrow> json" where
  "content_obj s = JObj [(''choices'', JArr [JObj [(''delta'', JObj [(''content'', JStr s)])]])]"

definition fake_obj :: json where
  "fake_obj =
     JObj [(''choices'',
            JArr [JObj [(''delta'', JObj [(''content'', JStr '' [INJECTED_TOKEN]'')]),
                        (''finish_reason'', JNull)]])]"

definition test_loads :: "string \<Rightarrow> json option" where
  "test_loads =
     map_of [(frame_hi, content_obj ''Hi''),
             (frame_there, content_obj '' there''),
             (frame_usage_5_0, usage_obj 5 0),
             (frame_usage_0_0, usage_obj 0 0),
             (frame_usage_12_7, usage_obj 12 7),
             (fake_event, fake_obj),
             (frame_null, JNull),
             (frame_many,
              JObj [(''choices'', JArr []), (''usage'', JObj [(''prompt_tokens'', JStr ''many'')])])]"

definition test_env :: env where
  "test_env =
     \<lparr>sha256 = (\<lambda>s. word_of_nat (length s)),
      json_loads = test_loads,
      json_dumps = (\<lambda>v. ''{}''),
      decode_utf8 = Some,
      decode_utf8_replace = (\<lambda>b. b),
      path_join = (\<lambda>d f. d @ ''/'' @ f)\<rparr>"

text \<open>
  A world whose clock reads 0, 1, 2, ... seconds, whose HTTP exchange is \<open>h\<close> and which
  holds no receipt file.
\<close>

definition test_world :: "http \<Rightarrow> world" where
  "test_world h =
     \<lparr>monotonic = (\<lambda>k. real k), reads = 0, time_time = 1700000000,
      post = (\<lambda>url payload headers. h), files = Map.empty\<rparr>"

definition data_lines :: "string list \<Rightarrow> raw_line item list" where
  "data_lines ps = map (\<lambda>p. Item (Bytes (''data: '' @ p))) ps"

section \<open>Properties\<close>

text \<open>
  C6. The derived property \<open>verified\<close> of a report is true exactly when none of its checks
  has status FAIL; in particular checks with status SKIP do not make a report unverified.
\<close>

theorem verified_iff_no_fail:
  "(verified r \<longleftrightarrow> FAIL \<notin> status ` set (checks r))
   \<and> (status ` set (checks r) \<subseteq> {PASS, SKIP} \<longrightarrow> verified r)"
proof -
  have "verified r \<longleftrightarrow> (\<forall>c \<in> set (checks r). status c \<noteq> FAIL)"
    by (simp add: verified_def list_all_iff)
  then show ?thesis by (auto simp: image_iff)
qed

theorem verified_iff_no_fail_witness:
  "status ` set (checks \<lparr>vr_receipt_path = ''r.json'',
       checks = [\<lparr>name = ''events_hash'', status = SKIP\<rparr>, \<lparr>name = ''content'', status = PASS\<rparr>],
       vr_model = ''m'', event_count = 0, vr_prompt_tokens = JInt 0, vr_completion_tokens = JInt 0,
       content_chars = 0, content_deltas = 0\<rparr>) \<subseteq> {PASS, SKIP}
   \<and> verified \<lparr>vr_receipt_path = ''r.json'',
       checks = [\<lparr>name = ''events_hash'', status = SKIP\<rparr>, \<lparr>name = ''content'', status = PASS\<rparr>],
       vr_model = ''m'', event_count = 0, vr_prompt_tokens = JInt 0, vr_completion_tokens = JInt 0,
       content_chars = 0, content_deltas = 0\<rparr>"
  using verified_iff_no_fail [of "\<lparr>vr_receipt_path = ''r.json'',
       checks = [\<lparr>name = ''events_hash'', status = SKIP\<rparr>, \<lparr>name = ''content'', status = PASS\<rparr>],
       vr_model = ''m'', event_count = 0, vr_prompt_tokens = JInt 0, vr_completion_tokens = JInt 0,
       content_chars = 0, content_deltas = 0\<rparr>"]
  by simp

subsection \<open>Digests and joined texts\<close>

lemma hexdigest_length: "length (hexdigest w) = 64"
  by (simp add: hexdigest_def)

lemma nibble_less: "nibble w i < 16"
proof -
  have "take_bit 4 (unat (drop_bit (4 * i) w)) < (2::nat) ^ 4"
    by (rule take_bit_nat_less_exp)
  then show ?thesis by (simp add: nibble_def unsigned_take_bit_eq)
qed

lemma hex_digit_mem: "n < 16 \<Longrightarrow> hex_digit n \<in> set ''0123456789abcdef''"
  unfolding hex_digit_def by (rule nth_mem) simp

lemma hexdigest_hex: "list_all (\<lambda>c. c \<in> set ''0123456789abcdef'') (hexdigest w)"
  unfolding hexdigest_def list_all_iff using hex_digit_mem [OF nibble_less] by auto

lemma hex_digit_inj: "m < 16 \<Longrightarrow> n < 16 \<Longrightarrow> hex_digit m = hex_digit n \<Longrightarrow> m = n"
proof -
  assume a: "m < 16" "n < 16" "hex_digit m = hex_digit n"
  have d: "distinct ''0123456789abcdef''" by simp
  have l: "length ''0123456789abcdef'' = 16" by simp
  from a show ?thesis
    unfolding hex_digit_def using nth_eq_iff_index_eq [OF d, of m n] l by simp
qed

lemma hexdigest_nth: "i < 64 \<Longrightarrow> hexdigest w ! i = hex_digit (nibble w (63 - i))"
proof -
  assume i: "i < 64"
  have "[0..<64] ! i = i" using i nth_upt [of 0 i 64] by simp
  moreover have "i < length [0..<64::nat]" using i by simp
  ultimately show ?thesis unfolding hexdigest_def by (simp only: nth_map)
qed

lemma hexdigest_inj: 
  assumes "hexdigest v = hexdigest w" shows "v = w"
proof (rule bit_eqI)
  fix n
  assume "possible_bit TYPE(256 word) n"
  then have n: "n < 256" by (simp add: possible_bit_def)
  define j where "j = n div 4"
  define k where "k = n mod 4"
  have j: "j < 64" and k: "k < 4" and nk: "n = 4 * j + k" using n by (auto simp: j_def k_def)
  have "63 - j < 64" by simp
  from assms have "hexdigest v ! (63 - j) = hexdigest w ! (63 - j)" by simp
  then have "hex_digit (nibble v j) = hex_digit (nibble w j)"
    using j by (simp add: hexdigest_nth)
  then have "nibble v j = nibble w j"
    using hex_digit_inj nibble_less by blast
  then have "take_bit 4 (drop_bit (4 * j) v) = take_bit 4 (drop_bit (4 * j) w)"
    unfolding nibble_def by (rule word_unat_eq_iff [THEN iffD2])
  then have "bit (take_bit 4 (drop_bit (4 * j) v)) k = bit (take_bit 4 (drop_bit (4 * j) w)) k"
    by simp
  then show "bit v n = bit w n"
    using k by (simp add: bit_take_bit_iff bit_drop_bit_eq nk)
qed


lemma hash_length: "length (hash env s) = 64"
  by (simp add: hash_def hexdigest_length)

lemma hash_nonempty: "hash env s \<noteq> []"
  using hash_length [of env s] by auto

lemma hash_eq_iff: "hash env a = hash env b \<longleftrightarrow> sha256 env a = sha256 env b"
  using hexdigest_inj by (auto simp: hash_def)

lemma length_join:
  "length (join sep xs) = sum_list (map length xs) + length sep * (length xs - 1)"
  by (induction sep xs rule: join.induct) simp_all

lemma join_insert_neq:
  assumes "f \<noteq> []" "k \<le> length xs"
  shows "join newline (take k xs @ [f] @ drop k xs) \<noteq> join newline xs"
proof -
  have s: "sum_list (map length (take k xs @ [f] @ drop k xs))
           = sum_list (map length xs) + length f"
  proof -
    have "sum_list (map length xs) = sum_list (map length (take k xs @ drop k xs))"
      by (simp only: append_take_drop_id)
    also have "\<dots> = sum_list (map length (take k xs)) + sum_list (map length (drop k xs))"
      by (simp only: map_append sum_list_append)
    finally show ?thesis by simp
  qed
  have l: "length (take k xs @ [f] @ drop k xs) = Suc (length xs)"
    using assms(2) by simp
  have "length (join newline (take k xs @ [f] @ drop k xs)) > length (join newline xs)"
    unfolding length_join s l using assms(1)
    by (cases f) (simp_all add: newline_def)
  then show ?thesis by auto
qed

lemma get_raw_events_tamper:
  "get_raw_events (tamper data) =
     take (length (get_raw_events data) div 2) (get_raw_events data) @ [fake_event]
       @ drop (length (get_raw_events data) div 2) (get_raw_events data)"
  by (simp add: tamper_def get_raw_events_def Let_def)

lemma fake_event_nonempty: "fake_event \<noteq> []"
  by (simp add: fake_event_def)

lemma tamper_changes_text:
  "join newline (get_raw_events (tamper data)) \<noteq> join newline (get_raw_events data)"
  unfolding get_raw_events_tamper
  by (rule join_insert_neq [OF fake_event_nonempty]) simp

lemma verify_receipt_checks:
  assumes "verify_receipt env data p = Inr r"
  shows "take 2 (checks r) = [check_events_hash env data, check_payload_hash data]"
  using assms
  by (auto simp: verify_receipt_def Let_def ebind_def split: prod.splits sum.splits if_splits)

lemma check_events_hash_stored:
  "rc_events_hash data = Some (hash env (join newline (get_raw_events data)))
   \<Longrightarrow> check_events_hash env data = \<lparr>name = ''events_hash'', status = PASS\<rparr>"
  by (simp add: check_events_hash_def Let_def hash_nonempty)

lemma check_payload_hash_stored:
  "rc_payload_hash data = Some (hash env s)
   \<Longrightarrow> check_payload_hash data = \<lparr>name = ''payload_hash'', status = PASS\<rparr>"
  using hexdigest_hex [of "sha256 env s"]
  by (simp add: check_payload_hash_def Let_def hash_nonempty hash_length) (simp add: hash_def)

subsection \<open>The example environment, evaluated\<close>

lemmas frame_defs =
  frame_hi_def frame_there_def frame_usage_5_0_def frame_usage_0_0_def frame_usage_12_7_def
  frame_bad_def fake_event_def frame_null_def frame_many_def

lemma test_loads_simps:
  "test_loads frame_hi = Some (content_obj ''Hi'')"
  "test_loads frame_there = Some (content_obj '' there'')"
  "test_loads frame_usage_5_0 = Some (usage_obj 5 0)"
  "test_loads frame_usage_0_0 = Some (usage_obj 0 0)"
  "test_loads frame_usage_12_7 = Some (usage_obj 12 7)"
  "test_loads fake_event = Some fake_obj"
  "test_loads frame_bad = None"
  "test_loads ''[DONE]'' = None"
  "test_loads frame_null = Some JNull"
  "test_loads frame_many
     = Some (JObj [(''choices'', JArr []), (''usage'', JObj [(''prompt_tokens'', JStr ''many'')])])"
  by (simp_all add: test_loads_def frame_defs)

lemma is_done_simps:
  "is_done ''[DONE]''"
  "\<not> is_done frame_hi"
  "\<not> is_done frame_there"
  "\<not> is_done frame_usage_5_0"
  "\<not> is_done frame_usage_0_0"
  "\<not> is_done frame_usage_12_7"
  "\<not> is_done fake_event"
  "\<not> is_done frame_bad"
  "\<not> is_done frame_null"
  "\<not> is_done frame_many"
  by (simp_all add: is_done_def strip_def is_space_def frame_defs)

lemma test_env_simps:
  "json_loads test_env = test_loads"
  "sha256 test_env s = word_of_nat (length s)"
  "json_dumps test_env v = ''{}''"
  "decode_utf8 test_env b = Some b"
  "path_join test_env d f = d @ ''/'' @ f"
  by (simp_all add: test_env_def)

subsection \<open>Tampering\<close>

lemma verify_receipt_content:
  assumes "verify_receipt env data p = Inr r"
  shows "\<exists>c. reconstruct_content ([], 0) (snd (parse_events env (get_raw_events data)))
               = Inr (c, content_deltas r) \<and> content_chars r = length c"
  using assms
  by (auto simp: verify_receipt_def Let_def ebind_def split: prod.splits sum.splits if_splits)

lemma parse_events_append:
  "parse_events env (xs @ ys)
     = (fst (parse_events env xs) + fst (parse_events env ys),
        snd (parse_events env xs) @ snd (parse_events env ys))"
  by (induction xs) (auto split: prod.splits option.splits)

lemma reconstruct_content_append:
  "reconstruct_content acc (ps @ qs)
     = ebind (reconstruct_content acc ps) (\<lambda>a. reconstruct_content a qs)"
proof (induction ps arbitrary: acc)
  case Nil
  then show ?case by (simp add: ebind_def)
next
  case (Cons obj ps)
  then show ?case by (auto simp: ebind_def split: sum.splits)
qed

lemma reconstruct_choice_any_acc:
  assumes "reconstruct_choice a ch = Inr a'"
  shows "\<exists>b'. reconstruct_choice b ch = Inr b'"
  using assms
  by (auto simp: reconstruct_choice_def ebind_def str_add_def Let_def split: sum.splits json.splits)

lemma fold_reconstruct_any_acc:
  assumes "fold_exn reconstruct_choice a chs = Inr a'"
  shows "\<exists>b'. fold_exn reconstruct_choice b chs = Inr b'"
  using assms
proof (induction chs arbitrary: a b)
  case Nil
  then show ?case by simp
next
  case (Cons ch chs)
  from Cons.prems obtain a1 where
    1: "reconstruct_choice a ch = Inr a1" and 2: "fold_exn reconstruct_choice a1 chs = Inr a'"
    by (auto simp: ebind_def split: sum.splits)
  from reconstruct_choice_any_acc [OF 1] obtain b1 where "reconstruct_choice b ch = Inr b1"
    by blast
  moreover from Cons.IH [OF 2] obtain b' where "fold_exn reconstruct_choice b1 chs = Inr b'"
    by blast
  ultimately show ?case by (auto simp: ebind_def)
qed

lemma reconstruct_content_any_acc:
  assumes "reconstruct_content a ps = Inr a'"
  shows "\<exists>b'. reconstruct_content b ps = Inr b'"
  using assms
proof (induction ps arbitrary: a b)
  case Nil
  then show ?case by simp
next
  case (Cons obj ps)
  show ?case
  proof (cases "obj = JNull")
    case True
    with Cons show ?thesis by simp
  next
    case False
    from Cons.prems False obtain cs chs acc1 where
      g: "dict_get obj ''choices'' (JArr []) = Inr cs" and i: "py_iter cs = Inr chs"
      and f: "fold_exn reconstruct_choice a chs = Inr acc1"
      and r: "reconstruct_content acc1 ps = Inr a'"
      by (auto simp: ebind_def split: sum.splits)
    from fold_reconstruct_any_acc [OF f] obtain b1 where
      f': "fold_exn reconstruct_choice b chs = Inr b1" by blast
    from Cons.IH [OF r] obtain b' where "reconstruct_content b1 ps = Inr b'" by blast
    with g i f' False show ?thesis by (auto simp: ebind_def)
  qed
qed

lemma reconstruct_fake:
  "reconstruct_content a (fake_obj # rest)
     = reconstruct_content (fst a @ '' [INJECTED_TOKEN]'', Suc (snd a)) rest"
  by (simp add: fake_obj_def ebind_def dict_get_def py_iter_def reconstruct_choice_def
        py_or_def str_add_def)

lemma reconstruct_choice_grows:
  assumes "reconstruct_choice a ch = Inr a'"
  shows "length (fst a) \<le> length (fst a')"
  using assms
  by (auto simp: reconstruct_choice_def ebind_def str_add_def Let_def split: sum.splits json.splits)

lemma fold_reconstruct_grows:
  assumes "fold_exn reconstruct_choice a chs = Inr a'"
  shows "length (fst a) \<le> length (fst a')"
  using assms
proof (induction chs arbitrary: a)
  case Nil
  then show ?case by simp
next
  case (Cons ch chs)
  from Cons.prems obtain a1 where
    1: "reconstruct_choice a ch = Inr a1" and 2: "fold_exn reconstruct_choice a1 chs = Inr a'"
    by (auto simp: ebind_def split: sum.splits)
  from reconstruct_choice_grows [OF 1] Cons.IH [OF 2] show ?case by simp
qed

lemma reconstruct_content_grows:
  assumes "reconstruct_content a ps = Inr a'"
  shows "length (fst a) \<le> length (fst a')"
  using assms
proof (induction ps arbitrary: a)
  case Nil
  then show ?case by simp
next
  case (Cons obj ps)
  show ?case
  proof (cases "obj = JNull")
    case True
    with Cons show ?thesis by simp
  next
    case False
    from Cons.prems False obtain cs chs acc1 where
      f: "fold_exn reconstruct_choice a chs = Inr acc1"
      and r: "reconstruct_content acc1 ps = Inr a'"
      by (auto simp: ebind_def split: sum.splits)
    from fold_reconstruct_grows [OF f] Cons.IH [OF r] show ?thesis by simp
  qed
qed

lemma find_usage_skip_fake:
  "find_usage (xs @ fake_obj # ys) = find_usage (xs @ ys)"
proof (induction xs)
  case Nil
  show ?case by (simp add: fake_obj_def ebind_def dict_get_def py_or_def)
next
  case (Cons obj xs)
  then show ?case by (auto simp: ebind_def Let_def split: sum.splits)
qed

lemma verify_receipt_InrD:
  assumes "verify_receipt env data p = Inr r"
  shows "\<exists>u c5. find_usage (rev (snd (parse_events env (get_raw_events data)))) = Inr u
           \<and> check_usage (case u of None \<Rightarrow> (JInt 0, JInt 0) | Some q \<Rightarrow> q) = Inr c5
           \<and> checks r ! 4 = c5"
  using assms
  by (auto simp: verify_receipt_def Let_def ebind_def split: prod.splits sum.splits)

lemma verify_receipt_InrI:
  assumes "reconstruct_content ([], 0) (snd (parse_events env (get_raw_events data))) = Inr (c, d)"
    and "find_usage (rev (snd (parse_events env (get_raw_events data)))) = Inr u"
    and "check_usage (case u of None \<Rightarrow> (JInt 0, JInt 0) | Some q \<Rightarrow> q) = Inr c5"
  shows "\<exists>r. verify_receipt env data p = Inr r
           \<and> checks r =
               [check_events_hash env data, check_payload_hash data,
                \<lparr>name = ''event parsing'',
                 status = (if fst (parse_events env (get_raw_events data)) = 0 then PASS else FAIL)\<rparr>,
                \<lparr>name = ''content'', status = (if c \<noteq> [] then PASS else FAIL)\<rparr>,
                c5]"
  using assms
  by (auto simp: verify_receipt_def Let_def ebind_def split: prod.splits)

lemma verify_receipt_transfer:
  assumes "verify_receipt env data p = Inr r"
    and "reconstruct_content ([], 0) (snd (parse_events env (get_raw_events data'))) = Inr (c', d')"
    and "find_usage (rev (snd (parse_events env (get_raw_events data'))))
           = find_usage (rev (snd (parse_events env (get_raw_events data))))"
  shows "\<exists>r'. verify_receipt env data' p' = Inr r'
           \<and> checks r' =
               [check_events_hash env data', check_payload_hash data',
                \<lparr>name = ''event parsing'',
                 status = (if fst (parse_events env (get_raw_events data')) = 0 then PASS else FAIL)\<rparr>,
                \<lparr>name = ''content'', status = (if c' \<noteq> [] then PASS else FAIL)\<rparr>,
                checks r ! 4]"
proof -
  from verify_receipt_InrD [OF assms(1)] obtain u c5 where
    u: "find_usage (rev (snd (parse_events env (get_raw_events data)))) = Inr u"
    and c5: "check_usage (case u of None \<Rightarrow> (JInt 0, JInt 0) | Some q \<Rightarrow> q) = Inr c5"
    and c4: "checks r ! 4 = c5"
    by (elim exE conjE)
  from verify_receipt_InrI [OF assms(2) u [folded assms(3)] c5, of p'] c4
  show ?thesis by simp
qed

lemma verify_receipt_parse_status:
  assumes "verify_receipt env data p = Inr r"
  shows "checks r ! 2 = \<lparr>name = ''event parsing'',
            status = (if fst (parse_events env (get_raw_events data)) = 0 then PASS else FAIL)\<rparr>"
  using assms
  by (auto simp: verify_receipt_def Let_def ebind_def split: prod.splits sum.splits if_splits)

lemma verify_tampered:
  assumes loads: "json_loads env fake_event = Some fake_obj"
    and orig: "verify_receipt env data p = Inr r"
  shows "\<exists>r'. verify_receipt env (tamper data) p' = Inr r'
           \<and> checks r' = [check_events_hash env (tamper data), check_payload_hash (tamper data),
                          checks r ! 2, \<lparr>name = ''content'', status = PASS\<rparr>, checks r ! 4]"
proof -
  define raw where "raw = get_raw_events data"
  define mid where "mid = length raw div 2"
  define P where "P = snd (parse_events env (take mid raw))"
  define Q where "Q = snd (parse_events env (drop mid raw))"
  have nd: "\<not> is_done fake_event" by (simp add: is_done_def strip_def is_space_def fake_event_def)
  have raw': "get_raw_events (tamper data) = take mid raw @ fake_event # drop mid raw"
    by (simp add: get_raw_events_tamper raw_def mid_def)
  have pf: "parse_events env (fake_event # drop mid raw)
              = (fst (parse_events env (drop mid raw)), fake_obj # Q)"
    by (cases "parse_events env (drop mid raw)") (simp add: Q_def nd loads)
  have pr: "parse_events env raw
      = (fst (parse_events env (take mid raw)) + fst (parse_events env (drop mid raw)), P @ Q)"
    using parse_events_append [of env "take mid raw" "drop mid raw"] by (simp add: P_def Q_def)
  have pr': "parse_events env (get_raw_events (tamper data))
      = (fst (parse_events env (take mid raw)) + fst (parse_events env (drop mid raw)),
         P @ fake_obj # Q)"
    unfolding raw' parse_events_append [of env "take mid raw" "fake_event # drop mid raw"]
    by (simp add: pf P_def del: parse_events.simps)
  from verify_receipt_content [OF orig] obtain c where
    rc: "reconstruct_content ([], 0) (P @ Q) = Inr (c, content_deltas r)"
    by (auto simp: raw_def [symmetric] pr)
  then obtain a where
    ra: "reconstruct_content ([], 0) P = Inr a" and rq: "reconstruct_content a Q = Inr (c, content_deltas r)"
    by (auto simp: reconstruct_content_append ebind_def split: sum.splits)
  from reconstruct_content_any_acc [OF rq, of "(fst a @ '' [INJECTED_TOKEN]'', Suc (snd a))"]
  obtain b where rb: "reconstruct_content (fst a @ '' [INJECTED_TOKEN]'', Suc (snd a)) Q = Inr b"
    by blast
  from reconstruct_content_grows [OF rb] have ne: "fst b \<noteq> []" by auto
  have rt: "reconstruct_content ([], 0) (snd (parse_events env (get_raw_events (tamper data))))
              = Inr (fst b, snd b)"
    by (simp add: pr' reconstruct_content_append ra ebind_def reconstruct_fake rb
          del: reconstruct_content.simps)
  have fu: "find_usage (rev (snd (parse_events env (get_raw_events (tamper data)))))
              = find_usage (rev (snd (parse_events env (get_raw_events data))))"
    by (simp add: pr' raw_def [symmetric] pr find_usage_skip_fake)
  from verify_receipt_transfer [OF orig rt fu, of p'] obtain r' where
    v: "verify_receipt env (tamper data) p' = Inr r'"
    and ch: "checks r' =
               [check_events_hash env (tamper data), check_payload_hash (tamper data),
                \<lparr>name = ''event parsing'',
                 status = (if fst (parse_events env (get_raw_events (tamper data))) = 0
                           then PASS else FAIL)\<rparr>,
                \<lparr>name = ''content'', status = (if fst b \<noteq> [] then PASS else FAIL)\<rparr>,
                checks r ! 4]"
    by blast
  have "checks r ! 2 = \<lparr>name = ''event parsing'',
                 status = (if fst (parse_events env (get_raw_events (tamper data))) = 0
                           then PASS else FAIL)\<rparr>"
    using verify_receipt_parse_status [OF orig] by (simp add: pr' raw_def [symmetric] pr)
  with v ch ne show ?thesis by simp
qed


lemma verify_receipt_checks_full:
  assumes "verify_receipt env data p = Inr r"
  shows "\<exists>s3 s4 s5. checks r =
           [check_events_hash env data, check_payload_hash data,
            \<lparr>name = ''event parsing'', status = s3\<rparr>, \<lparr>name = ''content'', status = s4\<rparr>,
            \<lparr>name = ''usage'', status = s5\<rparr>]"
  using assms
  by (auto simp: verify_receipt_def check_usage_def Let_def ebind_def
           split: prod.splits sum.splits if_splits)

text \<open>
  C1. Take a receipt whose stored events_hash is the digest of its raw-frame list and
  whose verification returns a report. Let the digest not collide on the recorded and the
  tampered transcript (SHA-256 is a parameter of the model; that it has no collision
  there is the one assumption about it), and let the fabricated frame parse to the
  dictionary it was serialised from. The tamper simulation inserts the fabricated frame
  at the midpoint of a copy of the raw-frame list, which always changes the newline-joined
  text. So verification of the copy returns a report whose events_hash check is FAIL where
  the original has PASS, and whose payload_hash check has the status it has on the
  original; the event-parsing and usage checks keep their status too, and the content
  check is PASS.
\<close>

theorem tamper_flips_events_hash:
  assumes stored: "rc_events_hash data = Some (hash env (join newline (get_raw_events data)))"
    and no_collision: "inj_on (sha256 env)
          {join newline (get_raw_events data), join newline (get_raw_events (tamper data))}"
    and loads: "json_loads env fake_event = Some fake_obj"
    and orig: "verify_receipt env data p = Inr r"
  shows "status (checks r ! 0) = PASS
       \<and> (\<exists>r'. verify_receipt env (tamper data) p' = Inr r'
              \<and> map name (checks r')
                  = [''events_hash'', ''payload_hash'', ''event parsing'', ''content'', ''usage'']
              \<and> status (checks r' ! 0) = FAIL
              \<and> status (checks r' ! 1) = status (checks r ! 1)
              \<and> status (checks r' ! 2) = status (checks r ! 2)
              \<and> status (checks r' ! 3) = PASS
              \<and> status (checks r' ! 4) = status (checks r ! 4))"
proof -
  have neq: "sha256 env (join newline (get_raw_events (tamper data)))
             \<noteq> sha256 env (join newline (get_raw_events data))"
    using no_collision tamper_changes_text [of data] by (auto simp: inj_on_def)
  have h: "rc_events_hash (tamper data) = rc_events_hash data"
          "rc_payload_hash (tamper data) = rc_payload_hash data"
    by (simp_all add: tamper_def Let_def)
  have c1: "status (check_events_hash env data) = PASS"
    using stored by (simp add: check_events_hash_def Let_def hash_nonempty)
  have c1': "check_events_hash env (tamper data) = \<lparr>name = ''events_hash'', status = FAIL\<rparr>"
    using stored neq by (simp add: check_events_hash_def Let_def h hash_nonempty hash_eq_iff)
  have c2: "check_payload_hash (tamper data) = check_payload_hash data"
    by (simp add: check_payload_hash_def h)
  have n2: "name (check_payload_hash data) = ''payload_hash''"
    by (simp add: check_payload_hash_def Let_def)
  have n1: "name (check_events_hash env (tamper data)) = ''events_hash''"
    by (simp add: c1')
  from verify_receipt_checks_full [OF orig] obtain s3 s4 s5 where
    cr: "checks r =
           [check_events_hash env data, check_payload_hash data,
            \<lparr>name = ''event parsing'', status = s3\<rparr>, \<lparr>name = ''content'', status = s4\<rparr>,
            \<lparr>name = ''usage'', status = s5\<rparr>]"
    by blast
  from verify_tampered [OF loads orig, of p'] obtain r' where
    v: "verify_receipt env (tamper data) p' = Inr r'"
    and full: "checks r' = [check_events_hash env (tamper data), check_payload_hash (tamper data),
                          checks r ! 2, \<lparr>name = ''content'', status = PASS\<rparr>, checks r ! 4]"
    by blast
  show ?thesis
    using v full cr c1 c1' c2 n2 by simp
qed

theorem tamper_flips_events_hash_witness:
  "rc_events_hash \<lparr>rc_model = Some ''m'', rc_timestamp = Some 1700000000,
       rc_events_hash = Some (hash test_env (join newline [frame_null, frame_hi])),
       rc_payload_hash = Some (hash test_env ''{}''), rc_event_count = Some 2,
       rc_raw_events = Some [frame_null, frame_hi]\<rparr>
     = Some (hash test_env (join newline [frame_null, frame_hi]))
   \<and> json_loads test_env fake_event = Some fake_obj
   \<and> map_sum id (\<lambda>r. map status (checks r))
        (verify_receipt test_env (tamper \<lparr>rc_model = Some ''m'', rc_timestamp = Some 1700000000,
           rc_events_hash = Some (hash test_env (join newline [frame_null, frame_hi])),
           rc_payload_hash = Some (hash test_env ''{}''), rc_event_count = Some 2,
           rc_raw_events = Some [frame_null, frame_hi]\<rparr>) ''r.json [tampered]'')
     = Inr [FAIL, PASS, PASS, PASS, SKIP]"
proof -
  define d where "d = \<lparr>rc_model = Some ''m'', rc_timestamp = Some 1700000000,
       rc_events_hash = Some (hash test_env (join newline [frame_null, frame_hi])),
       rc_payload_hash = Some (hash test_env ''{}''), rc_event_count = Some 2,
       rc_raw_events = Some [frame_null, frame_hi]\<rparr>"
  have raw: "get_raw_events d = [frame_null, frame_hi]"
    by (simp add: d_def get_raw_events_def)
  have raw': "get_raw_events (tamper d) = [frame_null, fake_event, frame_hi]"
    by (simp add: get_raw_events_tamper raw)
  have stored: "rc_events_hash d = Some (hash test_env (join newline (get_raw_events d)))"
    by (simp add: raw) (simp add: d_def)
  have nc: "inj_on (sha256 test_env)
      {join newline (get_raw_events d), join newline (get_raw_events (tamper d))}"
    unfolding raw raw'
    by (simp add: test_env_simps frame_defs newline_def)
  have loads: "json_loads test_env fake_event = Some fake_obj"
    by (simp add: test_env_simps test_loads_simps)
  have "\<exists>r. verify_receipt test_env d ''r.json'' = Inr r
          \<and> map status (drop 2 (checks r)) = [PASS, PASS, SKIP]"
    by (simp add: verify_receipt_def raw test_env_simps test_loads_simps is_done_simps
          content_obj_def ebind_def dict_get_def py_iter_def
          reconstruct_choice_def py_or_def str_add_def check_usage_def py_gt0_def)
  then obtain r where r: "verify_receipt test_env d ''r.json'' = Inr r"
    and rs: "map status (drop 2 (checks r)) = [PASS, PASS, SKIP]" by (elim exE conjE)
  have p: "check_payload_hash d = \<lparr>name = ''payload_hash'', status = PASS\<rparr>"
    by (rule check_payload_hash_stored [of _ test_env "''{}''"]) (simp add: d_def)
  from verify_receipt_checks_full [OF r] rs p
  have st: "status (checks r ! Suc 0) = PASS" "status (checks r ! 2) = PASS"
           "status (checks r ! 4) = SKIP"
    by auto
  from tamper_flips_events_hash [OF stored nc loads r, of "''r.json [tampered]''"]
  obtain r' where
    v: "verify_receipt test_env (tamper d) ''r.json [tampered]'' = Inr r'"
    and n: "map name (checks r')
              = [''events_hash'', ''payload_hash'', ''event parsing'', ''content'', ''usage'']"
    and s: "status (checks r' ! 0) = FAIL" "status (checks r' ! 1) = PASS"
           "status (checks r' ! 2) = PASS" "status (checks r' ! 3) = PASS"
           "status (checks r' ! 4) = SKIP"
    by (auto simp: st)
  from n obtain a b c e f where "checks r' = [a, b, c, e, f]"
    by (auto simp: map_eq_Cons_conv)
  with s have "map status (checks r') = [FAIL, PASS, PASS, PASS, SKIP]" by simp
  then show ?thesis unfolding d_def [symmetric] using v stored loads by (simp add: raw)
qed

subsection \<open>Generating, then verifying\<close>

lemma parse_errors_zero_iff:
  "fst (parse_events env raw) = 0 \<longleftrightarrow> (\<forall>ev \<in> set raw. is_done ev \<or> json_loads env ev \<noteq> None)"
  by (induction raw) (auto split: prod.splits option.splits)

lemma verified_report_iff:
  assumes "verify_receipt env data p = Inr r"
  shows "verified r \<longleftrightarrow>
           status (check_events_hash env data) \<noteq> FAIL \<and> status (check_payload_hash data) \<noteq> FAIL
           \<and> (\<forall>ev \<in> set (get_raw_events data). is_done ev \<or> json_loads env ev \<noteq> None)
           \<and> content_chars r > 0"
proof -
  have "verified r \<longleftrightarrow>
           status (check_events_hash env data) \<noteq> FAIL \<and> status (check_payload_hash data) \<noteq> FAIL
           \<and> fst (parse_events env (get_raw_events data)) = 0 \<and> content_chars r > 0"
    using assms
    by (auto simp: verify_receipt_def verified_def check_usage_def Let_def ebind_def
             split: prod.splits sum.splits if_splits)
  then show ?thesis by (simp add: parse_errors_zero_iff)
qed

lemma write_receipt_file:
  assumes "write_receipt env w dir model payload raw = (path, w')"
  shows "files w' path = Some \<lparr>rc_model = Some model, rc_timestamp = Some (time_time w),
            rc_events_hash = Some (hash env (join newline raw)),
            rc_payload_hash = Some (hash env (json_dumps env payload)),
            rc_event_count = Some (length raw), rc_raw_events = Some raw\<rparr>"
  using assms by (auto simp: write_receipt_def Let_def)

text \<open>
  C2, as amended. For every list of raw frame payloads (in particular every non-empty
  one) and every request body, the receipt the generator writes is found at the returned
  path, and verification of it reports PASS for events_hash and for payload_hash. The
  report, whenever verification returns one, has no FAIL check exactly when every frame
  that is not the sentinel parses as JSON and the reconstructed content is not empty:
  the generator records frames without validating them, and the event-parsing and content
  checks judge the frames themselves.
\<close>

theorem generated_receipt_verifies:
  assumes "write_receipt env w dir model payload raw = (path, w')"
  shows "\<exists>data. files w' path = Some data \<and> rc_raw_events data = Some raw
           \<and> verify_written env w' path = Some (verify_receipt env data path)
           \<and> status (check_events_hash env data) = PASS
           \<and> status (check_payload_hash data) = PASS
           \<and> (\<forall>r. verify_receipt env data path = Inr r \<longrightarrow>
                 map status (take 2 (checks r)) = [PASS, PASS]
                 \<and> (verified r \<longleftrightarrow>
                      (\<forall>ev \<in> set raw. is_done ev \<or> json_loads env ev \<noteq> None)
                      \<and> content_chars r > 0))"
proof -
  define data where "data = \<lparr>rc_model = Some model, rc_timestamp = Some (time_time w),
            rc_events_hash = Some (hash env (join newline raw)),
            rc_payload_hash = Some (hash env (json_dumps env payload)),
            rc_event_count = Some (length raw), rc_raw_events = Some raw\<rparr>"
  have f: "files w' path = Some data"
    using write_receipt_file [OF assms] by (simp add: data_def)
  have raw: "get_raw_events data = raw" by (simp add: data_def get_raw_events_def)
  have c1: "check_events_hash env data = \<lparr>name = ''events_hash'', status = PASS\<rparr>"
    by (rule check_events_hash_stored) (simp add: raw, simp add: data_def)
  have c2: "check_payload_hash data = \<lparr>name = ''payload_hash'', status = PASS\<rparr>"
    by (rule check_payload_hash_stored [of _ env "json_dumps env payload"]) (simp add: data_def)
  have "\<forall>r. verify_receipt env data path = Inr r \<longrightarrow>
                 map status (take 2 (checks r)) = [PASS, PASS]
                 \<and> (verified r \<longleftrightarrow>
                      (\<forall>ev \<in> set raw. is_done ev \<or> json_loads env ev \<noteq> None)
                      \<and> content_chars r > 0)"
  proof (intro allI impI)
    fix r assume r: "verify_receipt env data path = Inr r"
    show "map status (take 2 (checks r)) = [PASS, PASS]
                 \<and> (verified r \<longleftrightarrow>
                      (\<forall>ev \<in> set raw. is_done ev \<or> json_loads env ev \<noteq> None)
                      \<and> content_chars r > 0)"
      using verify_receipt_checks [OF r] verified_report_iff [OF r] by (simp add: c1 c2 raw)
  qed
  moreover have "rc_raw_events data = Some raw" by (simp add: data_def)
  moreover have "verify_written env w' path = Some (verify_receipt env data path)"
    by (simp add: verify_written_def f)
  ultimately show ?thesis using f c1 c2 by auto
qed

theorem generated_receipt_verifies_witness:
  "map_option (map_sum id (\<lambda>r. (map status (take 2 (checks r)), verified r)))
     (verify_written test_env
        (snd (write_receipt test_env (test_world (PostRaises [])) ''data/receipts'' ''m''
               (build_payload ''m'' [] None None None) [frame_null, frame_hi, ''[DONE]'']))
        (fst (write_receipt test_env (test_world (PostRaises [])) ''data/receipts'' ''m''
               (build_payload ''m'' [] None None None) [frame_null, frame_hi, ''[DONE]''])))
   = Some (Inr ([PASS, PASS], True))"
proof -
  obtain path w' where g: "write_receipt test_env (test_world (PostRaises [])) ''data/receipts'' ''m''
               (build_payload ''m'' [] None None None) [frame_null, frame_hi, ''[DONE]''] = (path, w')"
    by (cases "write_receipt test_env (test_world (PostRaises [])) ''data/receipts'' ''m''
               (build_payload ''m'' [] None None None) [frame_null, frame_hi, ''[DONE]'']") 
  from generated_receipt_verifies [OF g] obtain data where
    d: "files w' path = Some data" "rc_raw_events data = Some [frame_null, frame_hi, ''[DONE]'']"
       "verify_written test_env w' path = Some (verify_receipt test_env data path)"
    and v: "\<And>r. verify_receipt test_env data path = Inr r \<Longrightarrow>
                 map status (take 2 (checks r)) = [PASS, PASS]
                 \<and> (verified r \<longleftrightarrow>
                      (\<forall>ev \<in> set [frame_null, frame_hi, ''[DONE]'']. is_done ev \<or> json_loads test_env ev \<noteq> None)
                      \<and> content_chars r > 0)"
    by blast
  have raw: "get_raw_events data = [frame_null, frame_hi, ''[DONE]'']" by (simp add: d get_raw_events_def)
  have "\<exists>r. verify_receipt test_env data path = Inr r \<and> content_chars r = 2"
    by (simp add: verify_receipt_def raw test_env_simps test_loads_simps is_done_simps
          content_obj_def ebind_def dict_get_def py_iter_def
          reconstruct_choice_def py_or_def str_add_def check_usage_def py_gt0_def)
  then obtain r where r: "verify_receipt test_env data path = Inr r" "content_chars r = 2" by blast
  from v [OF r(1)] have "map status (take 2 (checks r)) = [PASS, PASS]" "verified r"
    by (simp_all add: r(2) test_env_simps test_loads_simps is_done_simps)
  then show ?thesis by (simp add: g d r)
qed

text \<open>
  The claim as stated fails: the receipt generated for the one-frame list that holds only
  the sentinel verifies with the content check at FAIL.
\<close>

theorem roundtrip_fail_counterexample:
  "map_option (map_sum id (\<lambda>r. (map status (checks r), verified r)))
     (verify_written test_env
        (snd (write_receipt test_env (test_world (PostRaises [])) ''data/receipts'' ''m''
               (build_payload ''m'' [] None None None) [''[DONE]'']))
        (fst (write_receipt test_env (test_world (PostRaises [])) ''data/receipts'' ''m''
               (build_payload ''m'' [] None None None) [''[DONE]''])))
   = Some (Inr ([PASS, PASS, PASS, FAIL, SKIP], False))"
proof -
  obtain path w' where g: "write_receipt test_env (test_world (PostRaises [])) ''data/receipts'' ''m''
               (build_payload ''m'' [] None None None) [''[DONE]''] = (path, w')"
    by (cases "write_receipt test_env (test_world (PostRaises [])) ''data/receipts'' ''m''
               (build_payload ''m'' [] None None None) [''[DONE]'']") 
  define data where "data = \<lparr>rc_model = Some ''m'', rc_timestamp = Some (time_time (test_world (PostRaises []))),
            rc_events_hash = Some (hash test_env (join newline [''[DONE]''])),
            rc_payload_hash = Some (hash test_env (json_dumps test_env (build_payload ''m'' [] None None None))),
            rc_event_count = Some (length [''[DONE]'']), rc_raw_events = Some [''[DONE]'']\<rparr>"
  have f: "files w' path = Some data"
    unfolding data_def by (rule write_receipt_file [OF g])
  have raw: "get_raw_events data = [''[DONE]'']" by (simp add: data_def get_raw_events_def)
  have c1: "check_events_hash test_env data = \<lparr>name = ''events_hash'', status = PASS\<rparr>"
    by (rule check_events_hash_stored) (simp add: raw, simp add: data_def)
  have c2: "check_payload_hash data = \<lparr>name = ''payload_hash'', status = PASS\<rparr>"
    by (rule check_payload_hash_stored [of _ test_env "json_dumps test_env (build_payload ''m'' [] None None None)"]) (simp add: data_def)
  have "map_sum id (\<lambda>r. (map status (checks r), verified r)) (verify_receipt test_env data path)
          = Inr ([PASS, PASS, PASS, FAIL, SKIP], False)"
    by (simp add: verify_receipt_def raw c1 c2 is_done_simps ebind_def check_usage_def py_gt0_def verified_def)
  then show ?thesis by (simp add: g verify_written_def f)
qed

subsection \<open>The sentinel\<close>

lemma iter_sse_data_append:
  "iter_sse_data env (map Item xs @ ys) = iter_sse_data env (map Item xs) @ iter_sse_data env ys"
  by (induction xs) (simp_all add: Let_def)

lemma consume_event_done:
  assumes "is_done ev"
  shows "\<exists>st' w'. consume_event env t thr st w ev = Inr (st', w', False)
           \<and> raw_events st' = raw_events st @ [ev]"
  using assms by (simp add: consume_event_def note_arrival_def Let_def split: prod.splits)

lemma consume_stops_at_sentinel:
  assumes "is_done ev"
  shows "consume env t thr st w (pre @ Item ev # rest) = consume env t thr st w (pre @ [Item ev])"
proof (induction pre arbitrary: st w)
  case Nil
  from consume_event_done [OF assms, of env t thr st w]
  show ?case by auto
next
  case (Cons a pre)
  show ?case
  proof (cases a)
    case (Raise e)
    then show ?thesis by simp
  next
    case (Item x)
    then show ?thesis using Cons.IH
      by (simp split: sum.splits prod.splits)
  qed
qed

lemma iter_sse_data_map_filter:
  "iter_sse_data env (map Item ls)
     = map (\<lambda>l. Item (data_payload env l)) (filter (is_data_line env) ls)"
  by (induction ls) (simp_all add: is_data_line_def data_payload_def Let_def)

text \<open>
  C3, as amended. The frame decoder does not look for the sentinel. From a sequence of
  lines it yields, in order, the payload of every data line and nothing else, so also the
  payloads of the data lines that come after a data line with the sentinel payload: a
  data line in the middle of the input gives its frame between the frames of the lines
  before it and the frames of the lines after it, whatever its payload. It is the stream
  consumer that stops: when a frame with the sentinel payload arrives, the consumer
  appends it to its raw-frame log and leaves the loop, so what it returns does not depend
  on the frames after the sentinel.
\<close>

theorem decoder_passes_sentinel_consumer_stops:
  "iter_sse_data env (map Item ls)
     = map (\<lambda>l. Item (data_payload env l)) (filter (is_data_line env) ls)
   \<and> (is_data_line env l \<longrightarrow>
        iter_sse_data env (map Item (xs @ l # ys))
          = iter_sse_data env (map Item xs) @ Item (data_payload env l)
              # iter_sse_data env (map Item ys))
   \<and> (is_done ev \<longrightarrow>
        consume env t thr st w (pre @ Item ev # rest) = consume env t thr st w (pre @ [Item ev])
        \<and> (\<exists>st' w'. consume env t thr st w (Item ev # rest) = Inr (st', w')
              \<and> raw_events st' = raw_events st @ [ev]))"
proof -
  have a: "iter_sse_data env (map Item (xs @ l # ys))
          = iter_sse_data env (map Item xs) @ Item (data_payload env l)
              # iter_sse_data env (map Item ys)" if "is_data_line env l"
    unfolding iter_sse_data_map_filter using that by simp
  have b: "\<exists>st' w'. consume env t thr st w (Item ev # rest) = Inr (st', w')
              \<and> raw_events st' = raw_events st @ [ev]" if "is_done ev"
    using consume_event_done [OF that, of env t thr st w] by auto
  show ?thesis using iter_sse_data_map_filter a b consume_stops_at_sentinel by blast
qed

lemma consume_example:
  "map_sum id (\<lambda>(st, w). raw_events st)
     (consume test_env 0 2000 (new_session 0) (test_world (PostRaises []))
        [Item frame_hi, Item ''[DONE]''])
   = Inr [frame_hi, ''[DONE]'']"
  by (simp add: consume_event_def note_arrival_def absorb_def now_def test_world_def
        new_session_def new_StreamResult_def
        test_env_simps test_loads_simps is_done_simps Let_def
        extract_content_parts_def extract_choice_def content_obj_def ebind_def dict_get_def
        py_iter_def py_or_def str_add_def)

lemma data_line_examples:
  "is_data_line test_env (Bytes ''data: [DONE]'')"
  "data_payload test_env (Bytes ''data: [DONE]'') = ''[DONE]''"
  "\<not> is_data_line test_env (Bytes '': ping'')"
  "is_data_line test_env (Bytes (''data: '' @ frame_hi))"
  "data_payload test_env (Bytes (''data: '' @ frame_hi)) = frame_hi"
  by (simp_all add: is_data_line_def data_payload_def decode_line_def test_env_simps
        startswith_def strip_def is_space_def frame_defs)

theorem decoder_passes_sentinel_consumer_stops_witness:
  "is_data_line test_env (Bytes ''data: [DONE]'')
   \<and> is_done (data_payload test_env (Bytes ''data: [DONE]''))
   \<and> iter_sse_data test_env
        (map Item ([] @ Bytes ''data: [DONE]'' # [Bytes '': ping'', Bytes (''data: '' @ frame_hi)]))
     = [Item ''[DONE]'', Item frame_hi]
   \<and> is_done ''[DONE]''
   \<and> map_sum id (\<lambda>(st, w). raw_events st)
        (consume test_env 0 2000 (new_session 0) (test_world (PostRaises []))
           [Item frame_hi, Item ''[DONE]'', Item frame_there])
     = Inr [frame_hi, ''[DONE]'']"
proof -
  have d: "is_done ''[DONE]''" by (rule is_done_simps)
  note th = decoder_passes_sentinel_consumer_stops
         [where env = test_env and l = "Bytes ''data: [DONE]''" and xs = "[]"
            and ys = "[Bytes '': ping'', Bytes (''data: '' @ frame_hi)]"
            and ls = "[Bytes '': ping'', Bytes (''data: '' @ frame_hi)]"
            and ev = "''[DONE]''" and t = 0 and thr = 2000 and st = "new_session 0"
            and w = "test_world (PostRaises [])" and pre = "[Item frame_hi]"
            and rest = "[Item frame_there]"]
  from th data_line_examples(1)
  have "iter_sse_data test_env
          (map Item ([] @ Bytes ''data: [DONE]'' # [Bytes '': ping'', Bytes (''data: '' @ frame_hi)]))
        = iter_sse_data test_env (map Item [])
            @ Item (data_payload test_env (Bytes ''data: [DONE]''))
            # map (\<lambda>l. Item (data_payload test_env l))
                (filter (is_data_line test_env) [Bytes '': ping'', Bytes (''data: '' @ frame_hi)])"
    by presburger
  then have a: "iter_sse_data test_env
          (map Item ([] @ Bytes ''data: [DONE]'' # [Bytes '': ping'', Bytes (''data: '' @ frame_hi)]))
        = [Item ''[DONE]'', Item frame_hi]"
    by (simp only: data_line_examples filter.simps list.map iter_sse_data.simps append_Nil
          if_True if_False)
  from th d
  have "consume test_env 0 2000 (new_session 0) (test_world (PostRaises []))
           [Item frame_hi, Item ''[DONE]'', Item frame_there]
        = consume test_env 0 2000 (new_session 0) (test_world (PostRaises []))
           [Item frame_hi, Item ''[DONE]'']"
    by simp
  then have b: "map_sum id (\<lambda>(st, w). raw_events st)
        (consume test_env 0 2000 (new_session 0) (test_world (PostRaises []))
           [Item frame_hi, Item ''[DONE]'', Item frame_there])
     = Inr [frame_hi, ''[DONE]'']"
    using consume_example by simp
  show ?thesis
    using data_line_examples(1) d a b by (simp only: data_line_examples simp_thms)
qed

text \<open>
  The claim as stated fails: from a data line with the sentinel followed by another data
  line, the decoder yields the sentinel frame and then the frame after it.
\<close>

theorem decoder_yields_after_sentinel_counterexample:
  "iter_sse_data test_env (data_lines [''[DONE]'', frame_hi]) = [Item ''[DONE]'', Item frame_hi]"
  by (simp add: data_lines_def decode_line_def test_env_simps startswith_def strip_def
        is_space_def frame_defs Let_def)

subsection \<open>The loop of the consumer\<close>

lemma note_arrival_facts:
  assumes "note_arrival t thr st w ev = (st1, w1)"
  shows "w1 = w\<lparr>reads := Suc (reads w)\<rparr>"
    and "raw_events st1 = raw_events st @ [ev]"
    and "text' (result st1) = text' (result st)"
    and "prompt_tokens (result st1) = prompt_tokens (result st)"
    and "completion_tokens (result st1) = completion_tokens (result st)"
    and "parse_errors (result st1) = parse_errors (result st)"
    and "error (result st1) = error (result st)"
    and "receipt_path (result st1) = receipt_path (result st)"
    and "ttfb_ms (result st1) \<noteq> None"
  using assms
  by (auto simp: note_arrival_def now_def Let_def split: prod.splits if_splits)

lemma absorb_facts:
  assumes "absorb r obj = Inr r'"
  shows "\<exists>c rs. extract_content_parts obj = Inr (c, rs) \<and> text' r' = text' r @ c"
    and "prompt_tokens r' = (if truthy (usage_field ''prompt_tokens'' obj)
                             then usage_field ''prompt_tokens'' obj else prompt_tokens r)"
    and "completion_tokens r' = (if truthy (usage_field ''completion_tokens'' obj)
                             then usage_field ''completion_tokens'' obj else completion_tokens r)"
    and "parse_errors r' = parse_errors r"
    and "error r' = error r"
    and "receipt_path r' = receipt_path r"
    and "ttfb_ms r' = ttfb_ms r"
  using assms
  by (auto simp: absorb_def usage_field_def ebind_def Let_def split: sum.splits prod.splits if_splits)


lemma consume_event_cases:
  assumes "consume_event env t thr st w ev = Inr (st', w', go)"
  shows "\<exists>st1. note_arrival t thr st w ev = (st1, w')
          \<and> ((is_done ev \<and> \<not> go \<and> st' = st1)
             \<or> (\<not> is_done ev \<and> go \<and> json_loads env ev = None
                 \<and> st' = st1\<lparr>result := (result st1)\<lparr>parse_errors := parse_errors (result st1) + 1\<rparr>\<rparr>)
             \<or> (\<not> is_done ev \<and> go
                 \<and> (\<exists>obj r'. json_loads env ev = Some obj \<and> absorb (result st1) obj = Inr r'
                       \<and> st' = st1\<lparr>result := r'\<rparr>)))"
  using assms
  by (auto simp: consume_event_def Let_def ebind_def
           split: prod.splits if_splits option.splits sum.splits)

lemma consume_event_common:
  assumes "consume_event env t thr st w ev = Inr (st', w', go)"
  shows "w' = w\<lparr>reads := Suc (reads w)\<rparr>"
    and "raw_events st' = raw_events st @ [ev]"
    and "error (result st') = error (result st)"
    and "receipt_path (result st') = receipt_path (result st)"
    and "go \<longleftrightarrow> \<not> is_done ev"
    and "ttfb_ms (result st') \<noteq> None"
proof -
  from consume_event_cases [OF assms] obtain st1 where
    n: "note_arrival t thr st w ev = (st1, w')" and
    c: "(is_done ev \<and> \<not> go \<and> st' = st1)
             \<or> (\<not> is_done ev \<and> go \<and> json_loads env ev = None
                 \<and> st' = st1\<lparr>result := (result st1)\<lparr>parse_errors := parse_errors (result st1) + 1\<rparr>\<rparr>)
             \<or> (\<not> is_done ev \<and> go
                 \<and> (\<exists>obj r'. json_loads env ev = Some obj \<and> absorb (result st1) obj = Inr r'
                       \<and> st' = st1\<lparr>result := r'\<rparr>))"
    by blast
  note f = note_arrival_facts [OF n]
  show "w' = w\<lparr>reads := Suc (reads w)\<rparr>" by (rule f)
  show "raw_events st' = raw_events st @ [ev]" using c f(2) by auto
  show "error (result st') = error (result st)" using c f(7) by (auto dest: absorb_facts(5))
  show "receipt_path (result st') = receipt_path (result st)"
    using c f(8) by (auto dest: absorb_facts(6))
  show "go \<longleftrightarrow> \<not> is_done ev" using c by auto
  show "ttfb_ms (result st') \<noteq> None" using c f(9) by (auto dest: absorb_facts(7))
qed

lemma consume_event_tokens:
  assumes "consume_event env t thr st w ev = Inr (st', w', go)"
  shows "prompt_tokens (result st') = observe env ''prompt_tokens'' ev (prompt_tokens (result st))"
    and "completion_tokens (result st')
           = observe env ''completion_tokens'' ev (completion_tokens (result st))"
proof -
  from consume_event_cases [OF assms] obtain st1 where
    n: "note_arrival t thr st w ev = (st1, w')" and
    c: "(is_done ev \<and> \<not> go \<and> st' = st1)
             \<or> (\<not> is_done ev \<and> go \<and> json_loads env ev = None
                 \<and> st' = st1\<lparr>result := (result st1)\<lparr>parse_errors := parse_errors (result st1) + 1\<rparr>\<rparr>)
             \<or> (\<not> is_done ev \<and> go
                 \<and> (\<exists>obj r'. json_loads env ev = Some obj \<and> absorb (result st1) obj = Inr r'
                       \<and> st' = st1\<lparr>result := r'\<rparr>))"
    by blast
  note f = note_arrival_facts [OF n]
  show "prompt_tokens (result st') = observe env ''prompt_tokens'' ev (prompt_tokens (result st))"
    using c f(4) by (auto simp: observe_def dest: absorb_facts(2))
  show "completion_tokens (result st')
           = observe env ''completion_tokens'' ev (completion_tokens (result st))"
    using c f(5) by (auto simp: observe_def dest: absorb_facts(3))
qed


lemma spec_last_nonzero_Cons:
  "spec_last_nonzero i (x # obs) = spec_last_nonzero (if truthy x then x else i) obs"
  by (simp add: spec_last_nonzero_def)

lemma observations_Cons:
  "observations env key (ev # ps) =
     (if is_done ev then []
      else case json_loads env ev of
             None \<Rightarrow> observations env key ps
           | Some obj \<Rightarrow> usage_field key obj # observations env key ps)"
  by (simp add: observations_def List.map_filter_simps split: option.splits)

lemma observe_spec:
  "\<not> is_done ev \<Longrightarrow>
   spec_last_nonzero (observe env key ev cur) (observations env key ps)
     = spec_last_nonzero cur (observations env key (ev # ps))"
  by (simp add: observe_def observations_Cons spec_last_nonzero_Cons split: option.splits)

lemma observe_done: "is_done ev \<Longrightarrow> observe env key ev cur = cur"
  by (simp add: observe_def)

lemma consume_tokens:
  assumes "consume env t thr st w items = Inr (st', w')"
  shows "prompt_tokens (result st')
           = spec_last_nonzero (prompt_tokens (result st))
               (observations env ''prompt_tokens'' (item_payloads items))
         \<and> completion_tokens (result st')
           = spec_last_nonzero (completion_tokens (result st))
               (observations env ''completion_tokens'' (item_payloads items))"
  using assms
proof (induction items arbitrary: st w)
  case Nil
  then show ?case by (simp add: observations_def spec_last_nonzero_def List.map_filter_simps)
next
  case (Cons a items)
  show ?case
  proof (cases a)
    case (Raise e)
    with Cons.prems show ?thesis
      by (auto simp: observations_def spec_last_nonzero_def List.map_filter_simps)
  next
    case (Item ev)
    from Cons.prems Item obtain st1 w1 go where
      ce: "consume_event env t thr st w ev = Inr (st1, w1, go)"
      and rest: "(if go then consume env t thr st1 w1 items else Inr (st1, w1)) = Inr (st', w')"
      by (auto split: sum.splits prod.splits)
    note tk = consume_event_tokens [OF ce]
    note go = consume_event_common(5) [OF ce]
    show ?thesis
    proof (cases "is_done ev")
      case True
      with go rest have "st' = st1" by simp
      with tk True show ?thesis
        by (simp add: Item observe_done observations_Cons spec_last_nonzero_def)
    next
      case False
      with go rest have "consume env t thr st1 w1 items = Inr (st', w')" by simp
      from Cons.IH [OF this] tk False show ?thesis
        by (simp add: Item observe_spec)
    qed
  qed
qed


lemma stream_chat_Inr:
  assumes "stream_chat env w url key model msgs opts = Inr (r, w')"
  shows "\<exists>st w2. try_request env (monotonic w (reads w)) (stall_threshold_ms opts)
                   (new_session (monotonic w (reads w))) (w\<lparr>reads := Suc (reads w)\<rparr>) url
                   (build_payload model msgs (temperature opts) (max_tokens opts) (top_p opts))
                   (request_headers key) = Inr (st, w2)
          \<and> (if save_receipt opts \<and> raw_events st \<noteq> []
              then (r, w') =
                (let pw = write_receipt env (w2\<lparr>reads := Suc (reads w2)\<rparr>) (receipt_dir opts) model
                       (build_payload model msgs (temperature opts) (max_tokens opts) (top_p opts))
                       (raw_events st)
                 in ((result st)\<lparr>ttc_ms := Some ((monotonic w2 (reads w2) - monotonic w (reads w)) * 1000),
                                 receipt_path := Some (fst pw)\<rparr>, snd pw))
              else (r, w') =
                ((result st)\<lparr>ttc_ms := Some ((monotonic w2 (reads w2) - monotonic w (reads w)) * 1000)\<rparr>,
                 w2\<lparr>reads := Suc (reads w2)\<rparr>))"
proof -
  from assms obtain st w2 where
    tr: "try_request env (monotonic w (reads w)) (stall_threshold_ms opts)
                   (new_session (monotonic w (reads w))) (w\<lparr>reads := Suc (reads w)\<rparr>) url
                   (build_payload model msgs (temperature opts) (max_tokens opts) (top_p opts))
                   (request_headers key) = Inr (st, w2)"
    by (auto simp: stream_chat_def run_session_def now_def Let_def ebind_def
             split: sum.splits prod.splits)
  with assms show ?thesis
    by (auto simp: stream_chat_def run_session_def now_def Let_def ebind_def
             split: prod.splits if_splits)
qed

lemma try_request_stream:
  assumes "post w url payload headers = Response None lines"
  shows "try_request env t thr st w url payload headers
           = consume env t thr st w (iter_sse_data env lines)"
  using assms by (simp add: try_request_def)


lemma stream_chat_tokens:
  assumes "stream_chat env w url key model msgs opts = Inr (r, w')"
  shows "\<exists>st w2. try_request env (monotonic w (reads w)) (stall_threshold_ms opts)
                   (new_session (monotonic w (reads w))) (w\<lparr>reads := Suc (reads w)\<rparr>) url
                   (build_payload model msgs (temperature opts) (max_tokens opts) (top_p opts))
                   (request_headers key) = Inr (st, w2)
          \<and> prompt_tokens r = prompt_tokens (result st)
          \<and> completion_tokens r = completion_tokens (result st)"
proof -
  from stream_chat_Inr [OF assms] obtain st w2 where
    tr: "try_request env (monotonic w (reads w)) (stall_threshold_ms opts)
                   (new_session (monotonic w (reads w))) (w\<lparr>reads := Suc (reads w)\<rparr>) url
                   (build_payload model msgs (temperature opts) (max_tokens opts) (top_p opts))
                   (request_headers key) = Inr (st, w2)"
    and r: "(if save_receipt opts \<and> raw_events st \<noteq> []
              then (r, w') =
                (let pw = write_receipt env (w2\<lparr>reads := Suc (reads w2)\<rparr>) (receipt_dir opts) model
                       (build_payload model msgs (temperature opts) (max_tokens opts) (top_p opts))
                       (raw_events st)
                 in ((result st)\<lparr>ttc_ms := Some ((monotonic w2 (reads w2) - monotonic w (reads w)) * 1000),
                                 receipt_path := Some (fst pw)\<rparr>, snd pw))
              else (r, w') =
                ((result st)\<lparr>ttc_ms := Some ((monotonic w2 (reads w2) - monotonic w (reads w)) * 1000)\<rparr>,
                 w2\<lparr>reads := Suc (reads w2)\<rparr>))"
    by blast
  from r have "prompt_tokens r = prompt_tokens (result st)
          \<and> completion_tokens r = completion_tokens (result st)"
    by (auto simp: Let_def split: if_splits)
  with tr show ?thesis by blast
qed

lemma new_session_tokens:
  "prompt_tokens (result (new_session t)) = JInt 0"
  "completion_tokens (result (new_session t)) = JInt 0"
  by (simp_all add: new_session_def new_StreamResult_def)

lemma token_counters_spec:
  assumes "post w api_url
             (build_payload model messages (temperature opts) (max_tokens opts) (top_p opts))
             (request_headers api_key) = Response None lines"
    and "stream_chat env w api_url api_key model messages opts = Inr (r, w')"
  shows "prompt_tokens r = spec_last_nonzero (JInt 0)
            (observations env ''prompt_tokens'' (item_payloads (iter_sse_data env lines)))
       \<and> completion_tokens r = spec_last_nonzero (JInt 0)
            (observations env ''completion_tokens'' (item_payloads (iter_sse_data env lines)))"
proof -
  from stream_chat_tokens [OF assms(2)] obtain st w2 where
    tr: "try_request env (monotonic w (reads w)) (stall_threshold_ms opts)
                   (new_session (monotonic w (reads w))) (w\<lparr>reads := Suc (reads w)\<rparr>) api_url
                   (build_payload model messages (temperature opts) (max_tokens opts) (top_p opts))
                   (request_headers api_key) = Inr (st, w2)"
    and tk: "prompt_tokens r = prompt_tokens (result st)"
            "completion_tokens r = completion_tokens (result st)"
    by blast
  have "post (w\<lparr>reads := Suc (reads w)\<rparr>) api_url
             (build_payload model messages (temperature opts) (max_tokens opts) (top_p opts))
             (request_headers api_key) = Response None lines"
    using assms(1) by simp
  from tr [unfolded try_request_stream [OF this]]
  show ?thesis
    using consume_tokens tk by (fastforce simp: new_session_tokens)
qed

subsection \<open>Token counters\<close>

text \<open>
  C5. For every frame sequence a streaming response delivers, each of the two token
  counters of the returned session is the last non-zero (truthy) value among the usage
  observations of that counter, taken over the frames that parse, in order of arrival up
  to the sentinel, and is the initial 0 when there is none. A frame whose observation for
  a counter is zero leaves that counter as it was. The scenario of the usage counts
  (5,0), (0,0), (12,7) follows the theorem; it ends with the counts (12,7).
\<close>

theorem token_counters_last_nonzero:
  assumes "post w api_url
             (build_payload model messages (temperature opts) (max_tokens opts) (top_p opts))
             (request_headers api_key) = Response None lines"
    and "stream_chat env w api_url api_key model messages opts = Inr (r, w')"
  shows "prompt_tokens r = spec_last_nonzero (JInt 0)
            (observations env ''prompt_tokens'' (item_payloads (iter_sse_data env lines)))
       \<and> completion_tokens r = spec_last_nonzero (JInt 0)
            (observations env ''completion_tokens'' (item_payloads (iter_sse_data env lines)))
       \<and> (\<forall>t thr st1 w1 ev obj st2 w2 go.
            consume_event env t thr st1 w1 ev = Inr (st2, w2, go) \<and> json_loads env ev = Some obj
            \<longrightarrow> (\<not> truthy (usage_field ''prompt_tokens'' obj)
                   \<longrightarrow> prompt_tokens (result st2) = prompt_tokens (result st1))
              \<and> (\<not> truthy (usage_field ''completion_tokens'' obj)
                   \<longrightarrow> completion_tokens (result st2) = completion_tokens (result st1)))"
proof -
  note a = token_counters_spec [OF assms]
  have b: "(\<not> truthy (usage_field ''prompt_tokens'' obj)
                   \<longrightarrow> prompt_tokens (result st2) = prompt_tokens (result st1))
              \<and> (\<not> truthy (usage_field ''completion_tokens'' obj)
                   \<longrightarrow> completion_tokens (result st2) = completion_tokens (result st1))"
    if "consume_event env t thr st1 w1 ev = Inr (st2, w2, go)" "json_loads env ev = Some obj"
    for t thr st1 w1 ev obj st2 w2 go
    using consume_event_tokens [OF that(1)] that(2) by (simp add: observe_def)
  show ?thesis using a b by blast
qed


lemmas run_defs =
  stream_chat_def run_session_def try_request_def consume_event_def note_arrival_def absorb_def
  now_def new_session_def new_StreamResult_def default_opts_def
  extract_content_parts_def extract_choice_def ebind_def dict_get_def py_iter_def py_or_def
  str_add_def content_obj_def usage_obj_def Let_def

lemma decode_data_lines:
  "iter_sse_data test_env (data_lines [frame_usage_5_0, frame_usage_0_0, frame_usage_12_7])
     = [Item frame_usage_5_0, Item frame_usage_0_0, Item frame_usage_12_7]"
  by (simp add: data_lines_def decode_line_def test_env_simps startswith_def strip_def
        is_space_def frame_defs Let_def)

theorem token_counters_last_nonzero_witness:
  "map_sum id (\<lambda>(r, w). (prompt_tokens r, completion_tokens r))
     (stream_chat test_env
        (test_world (Response None
           (data_lines [frame_usage_5_0, frame_usage_0_0, frame_usage_12_7])))
        ''https://api'' ''key'' ''m'' [] default_opts)
   = Inr (JInt 12, JInt 7)"
proof -
  let ?lines = "data_lines [frame_usage_5_0, frame_usage_0_0, frame_usage_12_7]"
  let ?w = "test_world (Response None ?lines)"
  have p: "post ?w ''https://api''
             (build_payload ''m'' [] (temperature default_opts) (max_tokens default_opts)
                (top_p default_opts))
             (request_headers ''key'') = Response None ?lines"
    by (simp add: test_world_def)
  have "\<exists>r w'. stream_chat test_env ?w ''https://api'' ''key'' ''m'' [] default_opts = Inr (r, w')"
    by (simp add: run_defs test_world_def decode_data_lines
          test_env_simps test_loads_simps is_done_simps)
  then obtain r w' where
    s: "stream_chat test_env ?w ''https://api'' ''key'' ''m'' [] default_opts = Inr (r, w')"
    by blast
  from token_counters_last_nonzero [OF p s]
  have "prompt_tokens r = JInt 12 \<and> completion_tokens r = JInt 7"
    by (simp add: decode_data_lines observations_Cons test_env_simps test_loads_simps
          is_done_simps spec_last_nonzero_def usage_field_def usage_obj_def dict_get_def
          py_or_def observations_def List.map_filter_simps)
  then show ?thesis by (simp add: s)
qed

lemma spec_last_nonzero_cases:
  "spec_last_nonzero i obs = i \<or> truthy (spec_last_nonzero i obs)"
proof (cases "filter truthy obs = []")
  case True
  then show ?thesis by (simp add: spec_last_nonzero_def)
next
  case False
  then have "last (filter truthy obs) \<in> set (filter truthy obs)" by (rule last_in_set)
  then show ?thesis using False by (simp add: spec_last_nonzero_def)
qed

lemma spec_last_nonzero_all_zero:
  "\<forall>v \<in> set obs. \<not> truthy v \<Longrightarrow> spec_last_nonzero i obs = i"
  by (simp add: spec_last_nonzero_def filter_empty_conv)

lemma spec_last_nonzero_mem:
  "spec_last_nonzero i obs = i
   \<or> (truthy (spec_last_nonzero i obs) \<and> spec_last_nonzero i obs \<in> set obs)"
proof (cases "filter truthy obs = []")
  case True
  then show ?thesis by (simp add: spec_last_nonzero_def)
next
  case False
  then have "last (filter truthy obs) \<in> set (filter truthy obs)" by (rule last_in_set)
  then show ?thesis using False by (simp add: spec_last_nonzero_def)
qed

lemma observations_Nil: "observations env key [] = []"
  by (simp add: observations_def List.map_filter_simps)

lemma try_request_token_counters:
  assumes "try_request env t thr st w url payload hdrs = Inr (st', w')"
  shows "prompt_tokens (result st')
           = spec_last_nonzero (prompt_tokens (result st))
               (observations env ''prompt_tokens'' (delivered env (post w url payload hdrs)))
       \<and> completion_tokens (result st')
           = spec_last_nonzero (completion_tokens (result st))
               (observations env ''completion_tokens'' (delivered env (post w url payload hdrs)))"
proof (cases "post w url payload hdrs")
  case (PostRaises e)
  with assms show ?thesis
    by (auto simp: try_request_def observations_Nil spec_last_nonzero_def)
next
  case (Response eo lines)
  show ?thesis
  proof (cases eo)
    case (Some e)
    with assms Response show ?thesis
      by (auto simp: try_request_def observations_Nil spec_last_nonzero_def)
  next
    case None
    with assms Response have "consume env t thr st w (iter_sse_data env lines) = Inr (st', w')"
      by (simp add: try_request_def)
    from consume_tokens [OF this] show ?thesis by (simp add: Response None)
  qed
qed

lemma stream_chat_token_counters:
  assumes "stream_chat env w api_url api_key model messages opts = Inr (r, w')"
    and "h = post w api_url
               (build_payload model messages (temperature opts) (max_tokens opts) (top_p opts))
               (request_headers api_key)"
  shows "prompt_tokens r
           = spec_last_nonzero (JInt 0) (observations env ''prompt_tokens'' (delivered env h))"
    and "completion_tokens r
           = spec_last_nonzero (JInt 0) (observations env ''completion_tokens'' (delivered env h))"
proof -
  from stream_chat_tokens [OF assms(1)] obtain st w2 where
    tr: "try_request env (monotonic w (reads w)) (stall_threshold_ms opts)
                   (new_session (monotonic w (reads w))) (w\<lparr>reads := Suc (reads w)\<rparr>) api_url
                   (build_payload model messages (temperature opts) (max_tokens opts) (top_p opts))
                   (request_headers api_key) = Inr (st, w2)"
    and tk: "prompt_tokens r = prompt_tokens (result st)"
            "completion_tokens r = completion_tokens (result st)"
    by blast
  have p: "post (w\<lparr>reads := Suc (reads w)\<rparr>) = post w" by simp
  from try_request_token_counters [OF tr]
  show "prompt_tokens r
           = spec_last_nonzero (JInt 0) (observations env ''prompt_tokens'' (delivered env h))"
    and "completion_tokens r
           = spec_last_nonzero (JInt 0) (observations env ''completion_tokens'' (delivered env h))"
    by (simp_all add: tk new_session_tokens p assms(2))
qed

text \<open>
  C9, as amended. The token counts of a session are never null. \<^verbatim>\<open>StreamResult\<close>
  initialises both to the integer 0, and the loop overwrites a counter only with a non-zero
  (truthy) value that the usage block of a consumed frame carries for it. So each count a
  caller observes is the integer 0 or such a value, which is an integer whenever the usage
  blocks carry integers. For every session in which no consumed frame carried a non-zero
  count for a counter, in particular every session whose request failed before any frame,
  the caller observes the integer 0 for it, the same value a reported count of zero gives.
\<close>

theorem token_counts_never_null:
  assumes "stream_chat env w api_url api_key model messages opts = Inr (r, w')"
    and "h = post w api_url
               (build_payload model messages (temperature opts) (max_tokens opts) (top_p opts))
               (request_headers api_key)"
  shows "prompt_tokens r \<noteq> JNull \<and> completion_tokens r \<noteq> JNull
       \<and> (prompt_tokens r = JInt 0
            \<or> (truthy (prompt_tokens r)
                \<and> prompt_tokens r \<in> set (observations env ''prompt_tokens'' (delivered env h))))
       \<and> (completion_tokens r = JInt 0
            \<or> (truthy (completion_tokens r)
                \<and> completion_tokens r
                     \<in> set (observations env ''completion_tokens'' (delivered env h))))
       \<and> ((\<forall>v \<in> set (observations env ''prompt_tokens'' (delivered env h)). \<not> truthy v)
             \<longrightarrow> prompt_tokens r = JInt 0)
       \<and> ((\<forall>v \<in> set (observations env ''completion_tokens'' (delivered env h)). \<not> truthy v)
             \<longrightarrow> completion_tokens r = JInt 0)
       \<and> (delivered env h = [] \<longrightarrow> prompt_tokens r = JInt 0 \<and> completion_tokens r = JInt 0)
       \<and> ((\<forall>v \<in> set (observations env ''prompt_tokens'' (delivered env h)). \<exists>i. v = JInt i)
             \<longrightarrow> (\<exists>i. prompt_tokens r = JInt i))
       \<and> ((\<forall>v \<in> set (observations env ''completion_tokens'' (delivered env h)). \<exists>i. v = JInt i)
             \<longrightarrow> (\<exists>i. completion_tokens r = JInt i))"
proof -
  note tk = stream_chat_token_counters [OF assms]
  let ?P = "observations env ''prompt_tokens'' (delivered env h)"
  let ?C = "observations env ''completion_tokens'' (delivered env h)"
  have mp: "prompt_tokens r = JInt 0 \<or> (truthy (prompt_tokens r) \<and> prompt_tokens r \<in> set ?P)"
    using spec_last_nonzero_mem [of "JInt 0" ?P] by (simp add: tk)
  have mc: "completion_tokens r = JInt 0
              \<or> (truthy (completion_tokens r) \<and> completion_tokens r \<in> set ?C)"
    using spec_last_nonzero_mem [of "JInt 0" ?C] by (simp add: tk)
  have n: "prompt_tokens r \<noteq> JNull \<and> completion_tokens r \<noteq> JNull"
    using mp mc by auto
  have zp: "prompt_tokens r = JInt 0" if "\<forall>v \<in> set ?P. \<not> truthy v"
    using spec_last_nonzero_all_zero [OF that, of "JInt 0"] by (simp add: tk)
  have zc: "completion_tokens r = JInt 0" if "\<forall>v \<in> set ?C. \<not> truthy v"
    using spec_last_nonzero_all_zero [OF that, of "JInt 0"] by (simp add: tk)
  have e: "prompt_tokens r = JInt 0 \<and> completion_tokens r = JInt 0" if "delivered env h = []"
    using zp zc by (simp add: that observations_Nil)
  have ip: "\<exists>i. prompt_tokens r = JInt i" if "\<forall>v \<in> set ?P. \<exists>i. v = JInt i"
    using mp that by auto
  have ic: "\<exists>i. completion_tokens r = JInt i" if "\<forall>v \<in> set ?C. \<exists>i. v = JInt i"
    using mc that by auto
  show ?thesis using n mp mc zp zc e ip ic by blast
qed

lemma decode_examples:
  "iter_sse_data test_env (data_lines [frame_hi, frame_usage_0_0, ''[DONE]''])
     = [Item frame_hi, Item frame_usage_0_0, Item ''[DONE]'']"
  "iter_sse_data test_env (data_lines [frame_hi, ''[DONE]'']) = [Item frame_hi, Item ''[DONE]'']"
  "iter_sse_data test_env (data_lines [frame_hi, frame_bad, frame_there])
     = [Item frame_hi, Item frame_bad, Item frame_there]"
  "iter_sse_data test_env (data_lines [frame_hi, frame_there] @ [Raise ''connection reset''])
     = [Item frame_hi, Item frame_there, Raise ''connection reset'']"
  by (simp_all add: data_lines_def decode_line_def test_env_simps startswith_def strip_def
        is_space_def frame_defs Let_def)

lemma decode_many:
  "iter_sse_data test_env (data_lines [frame_many]) = [Item frame_many]"
  by (simp add: data_lines_def decode_line_def test_env_simps startswith_def strip_def
        is_space_def frame_defs Let_def)

theorem token_counts_never_null_witness:
  "map_sum id (\<lambda>(r, w). (prompt_tokens r, completion_tokens r))
     (stream_chat test_env
        (test_world (Response None (data_lines [frame_hi, frame_usage_0_0, ''[DONE]''])))
        ''https://api'' ''key'' ''m'' [] default_opts)
   = Inr (JInt 0, JInt 0)
   \<and> map_sum id (\<lambda>(r, w). (prompt_tokens r, completion_tokens r))
       (stream_chat test_env (test_world (PostRaises ''connection refused''))
          ''https://api'' ''key'' ''m'' [] default_opts)
     = Inr (JInt 0, JInt 0)
   \<and> map_sum id (\<lambda>(r, w). (prompt_tokens r, completion_tokens r))
       (stream_chat test_env (test_world (Response None (data_lines [frame_many])))
          ''https://api'' ''key'' ''m'' [] default_opts)
     = Inr (JStr ''many'', JInt 0)"
proof -
  let ?payload = "build_payload ''m'' [] (temperature default_opts) (max_tokens default_opts)
                    (top_p default_opts)"
  let ?l1 = "data_lines [frame_hi, frame_usage_0_0, ''[DONE]'']"
  let ?w1 = "test_world (Response None ?l1)"
  have p1: "Response None ?l1 = post ?w1 ''https://api'' ?payload (request_headers ''key'')"
    by (simp add: test_world_def)
  have "\<exists>r w'. stream_chat test_env ?w1 ''https://api'' ''key'' ''m'' [] default_opts = Inr (r, w')"
    by (simp add: run_defs test_world_def decode_examples
          test_env_simps test_loads_simps is_done_simps)
  then obtain r1 w1' where
    s1: "stream_chat test_env ?w1 ''https://api'' ''key'' ''m'' [] default_opts = Inr (r1, w1')"
    by (elim exE)
  have z: "\<forall>v \<in> set (observations test_env key (delivered test_env (Response None ?l1))).
             \<not> truthy v" if "key = ''prompt_tokens'' \<or> key = ''completion_tokens''" for key
    using that
    by (auto simp: decode_examples observations_Cons test_env_simps test_loads_simps
          is_done_simps usage_field_def usage_obj_def content_obj_def dict_get_def py_or_def)
  from token_counts_never_null [OF s1 p1] z
  have a: "prompt_tokens r1 = JInt 0 \<and> completion_tokens r1 = JInt 0"
    by blast
  let ?w2 = "test_world (PostRaises ''connection refused'')"
  have p2: "PostRaises ''connection refused''
              = post ?w2 ''https://api'' ?payload (request_headers ''key'')"
    by (simp add: test_world_def)
  have "\<exists>r w'. stream_chat test_env ?w2 ''https://api'' ''key'' ''m'' [] default_opts = Inr (r, w')"
    by (simp add: run_defs test_world_def)
  then obtain r2 w2' where
    s2: "stream_chat test_env ?w2 ''https://api'' ''key'' ''m'' [] default_opts = Inr (r2, w2')"
    by (elim exE)
  have d2: "delivered test_env (PostRaises ''connection refused'') = []" by simp
  from token_counts_never_null [OF s2 p2] d2
  have b: "prompt_tokens r2 = JInt 0 \<and> completion_tokens r2 = JInt 0"
    by blast
  let ?l3 = "data_lines [frame_many]"
  let ?w3 = "test_world (Response None ?l3)"
  have p3: "Response None ?l3 = post ?w3 ''https://api'' ?payload (request_headers ''key'')"
    by (simp add: test_world_def)
  have "\<exists>r w'. stream_chat test_env ?w3 ''https://api'' ''key'' ''m'' [] default_opts
                  = Inr (r, w') \<and> prompt_tokens r \<noteq> JInt 0"
    by (simp add: run_defs test_world_def decode_many
          test_env_simps test_loads_simps is_done_simps)
  then obtain r3 w3' where
    s3: "stream_chat test_env ?w3 ''https://api'' ''key'' ''m'' [] default_opts = Inr (r3, w3')"
    and n3: "prompt_tokens r3 \<noteq> JInt 0"
    by (elim exE conjE)
  have o3: "observations test_env ''prompt_tokens'' (delivered test_env (Response None ?l3))
              = [JStr ''many'']"
           "observations test_env ''completion_tokens'' (delivered test_env (Response None ?l3))
              = [JNull]"
    by (simp_all add: decode_many observations_Cons observations_Nil test_env_simps
          test_loads_simps is_done_simps usage_field_def dict_get_def py_or_def)
  from token_counts_never_null [OF s3 p3] n3
  have c: "prompt_tokens r3 = JStr ''many'' \<and> completion_tokens r3 = JInt 0"
    unfolding o3 by auto
  show ?thesis unfolding s1 s2 s3 using a b c by simp
qed

text \<open>
  The claim as stated fails: a session whose frames carry no usage block returns the
  token counts 0 and 0, not null.
\<close>

theorem token_counts_null_counterexample:
  "map_sum id (\<lambda>(r, w). (prompt_tokens r, prompt_tokens r = JNull,
                           completion_tokens r, completion_tokens r = JNull))
     (stream_chat test_env
        (test_world (Response None (data_lines [frame_hi, ''[DONE]''])))
        ''https://api'' ''key'' ''m'' [] default_opts)
   = Inr (JInt 0, False, JInt 0, False)"
  by (simp add: run_defs test_world_def decode_examples
        test_env_simps test_loads_simps is_done_simps)

subsection \<open>Content reconstruction\<close>

lemma extract_choice_reconstruct:
  assumes "extract_choice (c, r) ch = Inr (c', r')"
  shows "\<exists>d'. reconstruct_choice (c0 @ c, d) ch = Inr (c0 @ c', d')"
  using assms
  by (auto simp: extract_choice_def reconstruct_choice_def ebind_def str_add_def Let_def
           split: sum.splits json.splits)

lemma fold_extract_reconstruct:
  assumes "fold_exn extract_choice (c, r) chs = Inr (c', r')"
  shows "\<exists>d'. fold_exn reconstruct_choice (c0 @ c, d) chs = Inr (c0 @ c', d')"
  using assms
proof (induction chs arbitrary: c r d)
  case Nil
  then show ?case by simp
next
  case (Cons ch chs)
  from Cons.prems obtain c1 r1 where
    e: "extract_choice (c, r) ch = Inr (c1, r1)"
    and f: "fold_exn extract_choice (c1, r1) chs = Inr (c', r')"
    by (auto simp: ebind_def split: sum.splits)
  from extract_choice_reconstruct [OF e] obtain d1 where
    "reconstruct_choice (c0 @ c, d) ch = Inr (c0 @ c1, d1)" by blast
  moreover from Cons.IH [OF f] obtain d' where
    "fold_exn reconstruct_choice (c0 @ c1, d1) chs = Inr (c0 @ c', d')" by blast
  ultimately show ?case by (auto simp: ebind_def)
qed

lemma reconstruct_frame:
  assumes "extract_content_parts obj = Inr (c, r)"
  shows "obj \<noteq> JNull
       \<and> (\<exists>d'. reconstruct_content (c0, d) (obj # rest) = reconstruct_content (c0 @ c, d') rest)"
proof -
  from assms obtain cs chs where
    g: "dict_get obj ''choices'' (JArr []) = Inr cs" and i: "py_iter cs = Inr chs"
    and f: "fold_exn extract_choice ([], []) chs = Inr (c, r)"
    by (auto simp: extract_content_parts_def ebind_def split: sum.splits)
  from g have n: "obj \<noteq> JNull" by (auto simp: dict_get_def)
  from fold_extract_reconstruct [OF f, of c0 d] obtain d' where
    "fold_exn reconstruct_choice (c0, d) chs = Inr (c0 @ c, d')" by auto
  then show ?thesis using g i n by (auto simp: ebind_def)
qed

lemma consume_event_content:
  assumes "consume_event env t thr st w ev = Inr (st', w', go)"
  shows "\<exists>d'. reconstruct_content (text' (result st), d) (snd (parse_events env (ev # rest)))
            = reconstruct_content (text' (result st'), d') (snd (parse_events env rest))"
proof -
  from consume_event_cases [OF assms] obtain st1 where
    n: "note_arrival t thr st w ev = (st1, w')" and
    c: "(is_done ev \<and> \<not> go \<and> st' = st1)
             \<or> (\<not> is_done ev \<and> go \<and> json_loads env ev = None
                 \<and> st' = st1\<lparr>result := (result st1)\<lparr>parse_errors := parse_errors (result st1) + 1\<rparr>\<rparr>)
             \<or> (\<not> is_done ev \<and> go
                 \<and> (\<exists>obj r'. json_loads env ev = Some obj \<and> absorb (result st1) obj = Inr r'
                       \<and> st' = st1\<lparr>result := r'\<rparr>))"
    by blast
  note f = note_arrival_facts(3) [OF n]
  from c consider
    (skip) "snd (parse_events env (ev # rest)) = JNull # snd (parse_events env rest)"
             "text' (result st') = text' (result st)"
    | (ok) obj r' where "\<not> is_done ev" "json_loads env ev = Some obj"
             "absorb (result st1) obj = Inr r'" "st' = st1\<lparr>result := r'\<rparr>"
    using f by (auto split: prod.splits)
  then show ?thesis
  proof cases
    case skip
    then show ?thesis by auto
  next
    case ok
    from absorb_facts(1) [OF ok(3)] obtain cc rs where
      e: "extract_content_parts obj = Inr (cc, rs)" and t: "text' r' = text' (result st1) @ cc"
      by blast
    have p: "snd (parse_events env (ev # rest)) = obj # snd (parse_events env rest)"
      using ok(1,2) by (simp split: prod.splits)
    from reconstruct_frame [OF e, of "text' (result st)" d "snd (parse_events env rest)"]
    show ?thesis using p t ok(4) f by auto
  qed
qed

lemma upto_sentinel_Cons:
  "upto_sentinel (ev # ps) = (if is_done ev then [ev] else ev # upto_sentinel ps)"
  by (simp add: upto_sentinel_def)

lemma consume_content:
  assumes "consume env t thr st w items = Inr (st', w')"
  shows "raw_events st' = raw_events st @ upto_sentinel (item_payloads items)
       \<and> (\<exists>d'. reconstruct_content (text' (result st), d)
                  (snd (parse_events env (upto_sentinel (item_payloads items))))
                = Inr (text' (result st'), d'))"
  using assms
proof (induction items arbitrary: st w d)
  case Nil
  then show ?case by (simp add: upto_sentinel_def)
next
  case (Cons a items)
  show ?case
  proof (cases a)
    case (Raise e)
    with Cons.prems show ?thesis by (auto simp: upto_sentinel_def)
  next
    case (Item ev)
    from Cons.prems Item obtain st1 w1 go where
      ce: "consume_event env t thr st w ev = Inr (st1, w1, go)"
      and rest: "(if go then consume env t thr st1 w1 items else Inr (st1, w1)) = Inr (st', w')"
      by (auto split: sum.splits prod.splits)
    note raw = consume_event_common(2) [OF ce]
    note go = consume_event_common(5) [OF ce]
    show ?thesis
    proof (cases "is_done ev")
      case True
      with go rest have eq: "st' = st1" by simp
      from consume_event_content [OF ce, of d "[]"] obtain d' where
        "reconstruct_content (text' (result st), d) (snd (parse_events env [ev]))
           = Inr (text' (result st1), d')" by auto
      with True eq raw show ?thesis by (auto simp: Item upto_sentinel_Cons)
    next
      case False
      with go rest have r: "consume env t thr st1 w1 items = Inr (st', w')" by simp
      from consume_event_content [OF ce, of d "upto_sentinel (item_payloads items)"] obtain d1 where
        a: "reconstruct_content (text' (result st), d)
              (snd (parse_events env (ev # upto_sentinel (item_payloads items))))
            = reconstruct_content (text' (result st1), d1)
                (snd (parse_events env (upto_sentinel (item_payloads items))))" by blast
      from Cons.IH [OF r, of d1] obtain d' where
        b: "raw_events st' = raw_events st1 @ upto_sentinel (item_payloads items)"
           "reconstruct_content (text' (result st1), d1)
                  (snd (parse_events env (upto_sentinel (item_payloads items))))
                = Inr (text' (result st'), d')" by blast
      from a b raw False show ?thesis by (auto simp: Item upto_sentinel_Cons)
    qed
  qed
qed


lemma item_payloads_map_Item: "item_payloads (map Item ps) = ps"
  by (induction ps) simp_all

lemma upto_sentinel_all:
  "\<forall>ev \<in> set (butlast ps). \<not> is_done ev \<Longrightarrow> upto_sentinel ps = ps"
  by (induction ps) (auto simp: upto_sentinel_Cons upto_sentinel_def split: if_splits)

lemma extraction_rule_reconstruct:
  assumes sentinel: "\<And>ev. is_done ev \<Longrightarrow> json_loads env ev = None"
    and "extraction_rule env tx ps = Inr t"
  shows "\<exists>d'. reconstruct_content (tx, d) (snd (parse_events env ps)) = Inr (t, d')"
  using assms(2)
proof (induction ps arbitrary: tx d)
  case Nil
  then show ?case by simp
next
  case (Cons ev ps)
  show ?case
  proof (cases "json_loads env ev")
    case None
    with Cons.prems have "extraction_rule env tx ps = Inr t" by simp
    from Cons.IH [OF this, of d] None show ?thesis by (auto split: prod.splits)
  next
    case (Some obj)
    with sentinel have nd: "\<not> is_done ev" by auto
    from Cons.prems Some obtain c r where
      e: "extract_content_parts obj = Inr (c, r)"
      and rest: "extraction_rule env (tx @ c) ps = Inr t"
      by (auto simp: ebind_def split: sum.splits)
    have p: "snd (parse_events env (ev # ps)) = obj # snd (parse_events env ps)"
      using nd Some by (simp split: prod.splits)
    from reconstruct_frame [OF e, of tx d "snd (parse_events env ps)"] obtain d1 where
      f: "reconstruct_content (tx, d) (obj # snd (parse_events env ps))
            = reconstruct_content (tx @ c, d1) (snd (parse_events env ps))"
      by blast
    from Cons.IH [OF rest, of d1] obtain d' where
      "reconstruct_content (tx @ c, d1) (snd (parse_events env ps)) = Inr (t, d')" by blast
    with f p show ?thesis by (simp del: parse_events.simps reconstruct_content.simps)
  qed
qed

lemma test_loads_sentinel:
  assumes "is_done ev"
  shows "json_loads test_env ev = None"
proof (rule ccontr)
  assume "json_loads test_env ev \<noteq> None"
  then obtain v where "test_loads ev = Some v" by (auto simp: test_env_simps)
  then have "ev \<in> {frame_hi, frame_there, frame_usage_5_0, frame_usage_0_0, frame_usage_12_7,
                    fake_event, frame_null, frame_many}"
    unfolding test_loads_def by (auto dest!: map_of_SomeD split: if_splits)
  with assms show False using is_done_simps by auto
qed

text \<open>
  C4. Take any list of raw frame payloads over which the extraction rule of the stream
  consumer (parse the payload, pass over it when it does not parse, otherwise append the
  content that \<^verbatim>\<open>_extract_content_parts\<close> finds) returns a text, that is, raises nothing;
  a sentinel payload is no JSON text, so parsing it fails. Then the content-reconstruction
  check of the verifier, run over the same payloads in the same order, reconstructs that
  very text, and the content length of a verification report on a receipt with these
  frames is the length of that text. The same holds of the loop of \<^verbatim>\<open>stream_chat\<close>
  itself: whenever it returns a session for the payloads, the verifier reconstructs the
  session's accumulated text from the session's raw-frame log.
\<close>

theorem verifier_content_matches_consumer:
  assumes "\<And>ev. is_done ev \<Longrightarrow> json_loads env ev = None"
    and "extraction_rule env [] ps = Inr tx"
  shows "(\<exists>d. reconstruct_content ([], 0) (snd (parse_events env ps)) = Inr (tx, d))
       \<and> (\<forall>data p r. get_raw_events data = ps \<and> verify_receipt env data p = Inr r
             \<longrightarrow> content_chars r = length tx)
       \<and> (\<forall>t thr w st w'.
             consume env t thr (new_session t) w (map Item ps) = Inr (st, w')
             \<longrightarrow> raw_events st = upto_sentinel ps
               \<and> (\<exists>d. reconstruct_content ([], 0) (snd (parse_events env (raw_events st)))
                        = Inr (text' (result st), d)))"
proof -
  from extraction_rule_reconstruct [OF assms, of 0] obtain d where
    a: "reconstruct_content ([], 0) (snd (parse_events env ps)) = Inr (tx, d)"
    by blast
  have b: "content_chars r = length tx"
    if "get_raw_events data = ps" "verify_receipt env data p = Inr r" for data p r
    using verify_receipt_content [OF that(2)] a by (auto simp: that(1))
  have c: "raw_events st = upto_sentinel ps
               \<and> (\<exists>d. reconstruct_content ([], 0) (snd (parse_events env (raw_events st)))
                        = Inr (text' (result st), d))"
    if "consume env t thr (new_session t) w (map Item ps) = Inr (st, w')" for t thr w st w'
    using consume_content [OF that, of 0]
    by (auto simp: item_payloads_map_Item new_session_def new_StreamResult_def)
  show ?thesis using a b c by blast
qed

theorem verifier_content_matches_consumer_witness:
  "extraction_rule test_env [] [frame_hi, frame_bad, ''[DONE]'', frame_there] = Inr ''Hi there''
   \<and> map_sum id fst
       (reconstruct_content ([], 0)
          (snd (parse_events test_env [frame_hi, frame_bad, ''[DONE]'', frame_there])))
     = Inr ''Hi there''"
proof -
  have e: "extraction_rule test_env [] [frame_hi, frame_bad, ''[DONE]'', frame_there]
             = Inr ''Hi there''"
    by (simp add: test_env_simps test_loads_simps extract_content_parts_def extract_choice_def
          content_obj_def ebind_def dict_get_def py_iter_def py_or_def str_add_def)
  from verifier_content_matches_consumer [OF test_loads_sentinel e] obtain d where
    "reconstruct_content ([], 0)
          (snd (parse_events test_env [frame_hi, frame_bad, ''[DONE]'', frame_there]))
       = Inr (''Hi there'', d)"
    by blast
  with e show ?thesis by (simp del: parse_events.simps reconstruct_content.simps)
qed

subsection \<open>Failures\<close>

lemma consume_event_unparsed:
  assumes "\<not> is_done ev" "json_loads env ev = None"
  shows "\<exists>st1 w1. consume_event env t thr st w ev = Inr (st1, w1, True)
           \<and> parse_errors (result st1) = parse_errors (result st) + 1
           \<and> error (result st1) = error (result st)
           \<and> raw_events st1 = raw_events st @ [ev]"
proof -
  obtain st0 w0 where n: "note_arrival t thr st w ev = (st0, w0)"
    by (cases "note_arrival t thr st w ev")
  note f = note_arrival_facts [OF n]
  have "consume_event env t thr st w ev
          = Inr (st0\<lparr>result := (result st0)\<lparr>parse_errors := parse_errors (result st0) + 1\<rparr>\<rparr>, w0, True)"
    using assms by (simp add: consume_event_def n Let_def)
  then show ?thesis using f by simp
qed

lemma consume_frames_then_raise:
  assumes "list_all (\<lambda>ev. \<not> is_done ev) evs"
    and "consume env t thr st w (map Item evs @ [Raise e]) = Inr (st', w')"
  shows "raw_events st' = raw_events st @ evs \<and> error (result st') = Some e
       \<and> w' = w\<lparr>reads := reads w + length evs\<rparr>"
  using assms
proof (induction evs arbitrary: st w)
  case Nil
  then show ?case by auto
next
  case (Cons ev evs)
  from Cons.prems(2) obtain st1 w1 go where
    ce: "consume_event env t thr st w ev = Inr (st1, w1, go)"
    and rest: "(if go then consume env t thr st1 w1 (map Item evs @ [Raise e]) else Inr (st1, w1))
                 = Inr (st', w')"
    by (auto split: sum.splits prod.splits)
  note c = consume_event_common [OF ce]
  from Cons.prems(1) c(5) have go by simp
  with rest have r: "consume env t thr st1 w1 (map Item evs @ [Raise e]) = Inr (st', w')" by simp
  from Cons.prems(1) have "list_all (\<lambda>ev. \<not> is_done ev) evs" by simp
  from Cons.IH [OF this r] show ?case using c(1,2) by simp
qed

lemma try_request_failure:
  assumes "transport_failure env (post w url payload hdrs) e evs"
    and "try_request env t thr st w url payload hdrs = Inr (st', w')"
  shows "raw_events st' = raw_events st @ evs \<and> error (result st') = Some e
       \<and> w' = w\<lparr>reads := reads w + length evs\<rparr>"
proof (cases "post w url payload hdrs")
  case (PostRaises e')
  with assms show ?thesis by (auto simp: try_request_def)
next
  case (Response eo lines)
  show ?thesis
  proof (cases eo)
    case (Some e')
    with assms Response show ?thesis by (auto simp: try_request_def)
  next
    case None
    with assms Response have
      "list_all (\<lambda>ev. \<not> is_done ev) evs"
      "consume env t thr st w (map Item evs @ [Raise e]) = Inr (st', w')"
      by (auto simp: try_request_def)
    then show ?thesis by (rule consume_frames_then_raise)
  qed
qed

lemma try_request_failure_returns:
  assumes "transport_failure env (post w url payload hdrs) e []"
  shows "\<exists>st' w'. try_request env t thr st w url payload hdrs = Inr (st', w')"
proof (cases "post w url payload hdrs")
  case (PostRaises e')
  then show ?thesis by (simp add: try_request_def)
next
  case (Response eo lines)
  with assms show ?thesis by (cases eo) (auto simp: try_request_def)
qed

lemma stream_chat_returns:
  assumes "try_request env (monotonic w (reads w)) (stall_threshold_ms opts)
                   (new_session (monotonic w (reads w))) (w\<lparr>reads := Suc (reads w)\<rparr>) url
                   (build_payload model msgs (temperature opts) (max_tokens opts) (top_p opts))
                   (request_headers key) = Inr (st, w2)"
  shows "\<exists>r w'. stream_chat env w url key model msgs opts = Inr (r, w')"
  using assms
  by (auto simp: stream_chat_def run_session_def now_def Let_def ebind_def split: prod.splits)

lemma run_session_eq:
  "run_session env w url key model msgs opts =
     ebind (try_request env (monotonic w (reads w)) (stall_threshold_ms opts)
                   (new_session (monotonic w (reads w))) (w\<lparr>reads := Suc (reads w)\<rparr>) url
                   (build_payload model msgs (temperature opts) (max_tokens opts) (top_p opts))
                   (request_headers key))
       (\<lambda>(st', w2). Inr (st', w2,
           build_payload model msgs (temperature opts) (max_tokens opts) (top_p opts),
           monotonic w (reads w)))"
  by (simp add: run_session_def now_def Let_def)

text \<open>
  C7. A frame that is not the sentinel and does not parse as JSON adds one to the count
  of parse errors, leaves the session's error as it is, and the loop goes on with the
  frames that follow. A transport-level failure (raised by the request, by the status
  check or by the line iterator) puts its description into the session's error and ends
  the loop, whatever input remains. When a session ends so and is returned, its error
  is that description, its time to completion is the time from the start of the session
  to the clock reading after the failure, and the raw-frame log holds the frames received
  before the failure. A failure before any frame always returns such a session.
\<close>

theorem parse_failure_continues_transport_failure_stops:
  "(\<not> is_done ev \<and> json_loads env ev = None \<longrightarrow>
      (\<exists>st1 w1. consume_event env t thr st w ev = Inr (st1, w1, True)
           \<and> parse_errors (result st1) = parse_errors (result st) + 1
           \<and> error (result st1) = error (result st)
           \<and> raw_events st1 = raw_events st @ [ev]
           \<and> consume env t thr st w (Item ev # rest) = consume env t thr st1 w1 rest))
   \<and> consume env t thr st w (Raise e # rest)
       = Inr (st\<lparr>result := (result st)\<lparr>error := Some e\<rparr>\<rparr>, w)
   \<and> (transport_failure env
         (post w0 api_url
            (build_payload model messages (temperature opts) (max_tokens opts) (top_p opts))
            (request_headers api_key)) e evs
       \<longrightarrow> (evs = [] \<longrightarrow> (\<exists>r w'. stream_chat env w0 api_url api_key model messages opts = Inr (r, w')))
         \<and> (\<forall>r w'. stream_chat env w0 api_url api_key model messages opts = Inr (r, w') \<longrightarrow>
               error r = Some e
               \<and> ttc_ms r = Some ((monotonic w0 (reads w0 + 1 + length evs)
                                    - monotonic w0 (reads w0)) * 1000)
               \<and> (\<exists>st w2 payload t_start.
                     run_session env w0 api_url api_key model messages opts
                       = Inr (st, w2, payload, t_start)
                     \<and> raw_events st = evs \<and> error (result st) = Some e)))"
proof -
  let ?payload = "build_payload model messages (temperature opts) (max_tokens opts) (top_p opts)"
  let ?req = "try_request env (monotonic w0 (reads w0)) (stall_threshold_ms opts)
                   (new_session (monotonic w0 (reads w0))) (w0\<lparr>reads := Suc (reads w0)\<rparr>) api_url
                   ?payload (request_headers api_key)"
  have a: "\<exists>st1 w1. consume_event env t thr st w ev = Inr (st1, w1, True)
           \<and> parse_errors (result st1) = parse_errors (result st) + 1
           \<and> error (result st1) = error (result st)
           \<and> raw_events st1 = raw_events st @ [ev]
           \<and> consume env t thr st w (Item ev # rest) = consume env t thr st1 w1 rest"
    if "\<not> is_done ev" "json_loads env ev = None"
    using consume_event_unparsed [OF that, of t thr st w] by auto
  have b: "consume env t thr st w (Raise e # rest)
       = Inr (st\<lparr>result := (result st)\<lparr>error := Some e\<rparr>\<rparr>, w)"
    by simp
  have c: "(evs = [] \<longrightarrow> (\<exists>r w'. stream_chat env w0 api_url api_key model messages opts = Inr (r, w')))
         \<and> (\<forall>r w'. stream_chat env w0 api_url api_key model messages opts = Inr (r, w') \<longrightarrow>
               error r = Some e
               \<and> ttc_ms r = Some ((monotonic w0 (reads w0 + 1 + length evs)
                                    - monotonic w0 (reads w0)) * 1000)
               \<and> (\<exists>st w2 payload t_start.
                     run_session env w0 api_url api_key model messages opts
                       = Inr (st, w2, payload, t_start)
                     \<and> raw_events st = evs \<and> error (result st) = Some e))"
    if tf: "transport_failure env (post w0 api_url ?payload (request_headers api_key)) e evs"
  proof -
    have tf': "transport_failure env
                 (post (w0\<lparr>reads := Suc (reads w0)\<rparr>) api_url ?payload (request_headers api_key)) e evs"
      using tf by simp
    have c1: "\<exists>r w'. stream_chat env w0 api_url api_key model messages opts = Inr (r, w')"
      if "evs = []"
    proof -
      from try_request_failure_returns [OF tf' [unfolded that]]
      obtain st' w2 where "?req = Inr (st', w2)" by blast
      then show ?thesis by (rule stream_chat_returns)
    qed
    have c2: "error r = Some e
               \<and> ttc_ms r = Some ((monotonic w0 (reads w0 + 1 + length evs)
                                    - monotonic w0 (reads w0)) * 1000)
               \<and> (\<exists>st w2 payload t_start.
                     run_session env w0 api_url api_key model messages opts
                       = Inr (st, w2, payload, t_start)
                     \<and> raw_events st = evs \<and> error (result st) = Some e)"
      if s: "stream_chat env w0 api_url api_key model messages opts = Inr (r, w')" for r w'
    proof -
      from stream_chat_Inr [OF s] obtain st w2 where
        tr: "?req = Inr (st, w2)"
        and r: "(if save_receipt opts \<and> raw_events st \<noteq> []
              then (r, w') =
                (let pw = write_receipt env (w2\<lparr>reads := Suc (reads w2)\<rparr>) (receipt_dir opts) model
                       ?payload (raw_events st)
                 in ((result st)\<lparr>ttc_ms := Some ((monotonic w2 (reads w2) - monotonic w0 (reads w0)) * 1000),
                                 receipt_path := Some (fst pw)\<rparr>, snd pw))
              else (r, w') =
                ((result st)\<lparr>ttc_ms := Some ((monotonic w2 (reads w2) - monotonic w0 (reads w0)) * 1000)\<rparr>,
                 w2\<lparr>reads := Suc (reads w2)\<rparr>))"
        by blast
      from try_request_failure [OF tf' tr]
      have f: "raw_events st = evs" "error (result st) = Some e"
              "w2 = w0\<lparr>reads := Suc (reads w0) + length evs\<rparr>"
        by (simp_all add: new_session_def)
      from r have "error r = error (result st)"
        "ttc_ms r = Some ((monotonic w2 (reads w2) - monotonic w0 (reads w0)) * 1000)"
        by (auto simp: Let_def split: if_splits)
      moreover have "run_session env w0 api_url api_key model messages opts
                       = Inr (st, w2, ?payload, monotonic w0 (reads w0))"
        by (simp add: run_session_eq tr ebind_def)
      ultimately show ?thesis using f by simp
    qed
    show ?thesis using c1 c2 by blast
  qed
  show ?thesis using a b c by blast
qed


theorem parse_failure_continues_transport_failure_stops_witness:
  "(\<not> is_done frame_bad \<and> json_loads test_env frame_bad = None
    \<and> (\<exists>st1 w1. consume_event test_env 0 2000 (new_session 0) (test_world (PostRaises []))
                    frame_bad = Inr (st1, w1, True)
          \<and> parse_errors (result st1) = 1 \<and> error (result st1) = None
          \<and> raw_events st1 = [frame_bad]))
   \<and> (transport_failure test_env (PostRaises ''connection refused'') ''connection refused'' []
      \<and> (\<exists>r w'. stream_chat test_env (test_world (PostRaises ''connection refused''))
                    ''https://api'' ''key'' ''m'' [] default_opts = Inr (r, w')
            \<and> error r = Some ''connection refused'' \<and> ttc_ms r = Some 1000))
   \<and> (transport_failure test_env
         (Response None (data_lines [frame_hi, frame_there] @ [Raise ''connection reset'']))
         ''connection reset'' [frame_hi, frame_there]
      \<and> (\<exists>r w'. stream_chat test_env
                    (test_world (Response None
                       (data_lines [frame_hi, frame_there] @ [Raise ''connection reset''])))
                    ''https://api'' ''key'' ''m'' [] default_opts = Inr (r, w')
            \<and> error r = Some ''connection reset'' \<and> ttc_ms r = Some 3000))"
proof -
  have h1: "\<not> is_done frame_bad \<and> json_loads test_env frame_bad = None"
    by (simp add: is_done_simps test_env_simps test_loads_simps)
  from parse_failure_continues_transport_failure_stops
         [of frame_bad test_env 0 2000 "new_session 0" "test_world (PostRaises [])" "[]"
             "[]" "test_world (PostRaises [])" "[]" "[]" "[]" default_opts "[]" "[]"] h1
  have a: "\<exists>st1 w1. consume_event test_env 0 2000 (new_session 0) (test_world (PostRaises []))
                    frame_bad = Inr (st1, w1, True)
          \<and> parse_errors (result st1) = 1 \<and> error (result st1) = None
          \<and> raw_events st1 = [frame_bad]"
    by (auto simp: new_session_def new_StreamResult_def)
  let ?w2 = "test_world (PostRaises ''connection refused'')"
  have h2: "transport_failure test_env (PostRaises ''connection refused'') ''connection refused'' []"
    by simp
  have p2: "post ?w2 ''https://api''
              (build_payload ''m'' [] (temperature default_opts) (max_tokens default_opts)
                 (top_p default_opts))
              (request_headers ''key'') = PostRaises ''connection refused''"
    by (simp add: test_world_def)
  from parse_failure_continues_transport_failure_stops
         [of frame_bad test_env 0 2000 "new_session 0" "test_world (PostRaises [])" "[]"
             "''connection refused''" ?w2 "''https://api''" "''m''" "[]" default_opts "''key''" "[]"]
       h2
  have b: "\<exists>r w'. stream_chat test_env ?w2 ''https://api'' ''key'' ''m'' [] default_opts = Inr (r, w')
            \<and> error r = Some ''connection refused'' \<and> ttc_ms r = Some 1000"
    unfolding p2 by (auto simp: test_world_def)
  let ?lines = "data_lines [frame_hi, frame_there] @ [Raise ''connection reset'']"
  let ?w3 = "test_world (Response None ?lines)"
  have h3: "transport_failure test_env (Response None ?lines)
              ''connection reset'' [frame_hi, frame_there]"
    by (simp add: decode_examples is_done_simps)
  have p3: "post ?w3 ''https://api''
              (build_payload ''m'' [] (temperature default_opts) (max_tokens default_opts)
                 (top_p default_opts))
              (request_headers ''key'') = Response None ?lines"
    by (simp add: test_world_def)
  have "\<exists>r w'. stream_chat test_env ?w3 ''https://api'' ''key'' ''m'' [] default_opts = Inr (r, w')"
    by (simp add: run_defs test_world_def decode_examples
          test_env_simps test_loads_simps is_done_simps)
  then obtain r w' where
    s: "stream_chat test_env ?w3 ''https://api'' ''key'' ''m'' [] default_opts = Inr (r, w')"
    by blast
  from parse_failure_continues_transport_failure_stops
         [of frame_bad test_env 0 2000 "new_session 0" "test_world (PostRaises [])" "[]"
             "''connection reset''" ?w3 "''https://api''" "''m''" "[]" default_opts "''key''"
             "[frame_hi, frame_there]"]
       h3 s
  have "error r = Some ''connection reset'' \<and> ttc_ms r = Some 3000"
    unfolding p3 by (auto simp: test_world_def)
  with s have c: "\<exists>r w'. stream_chat test_env ?w3 ''https://api'' ''key'' ''m'' [] default_opts
                     = Inr (r, w')
            \<and> error r = Some ''connection reset'' \<and> ttc_ms r = Some 3000"
    by blast
  show ?thesis using h1 a h2 b h3 c by blast
qed

subsection \<open>The empty stream\<close>

text \<open>
  C8. When the response delivers no frame and no transport error occurs, and the clock
  does not run backwards between the start and the end of the session, \<^verbatim>\<open>stream_chat\<close>
  returns a session with no time to first byte, empty text, a time to completion that is
  set and not negative, and no error; it sets no receipt path and writes no receipt file,
  whatever the options, so also when receipt saving is requested.
\<close>

theorem empty_stream_session:
  assumes "post w api_url
             (build_payload model messages (temperature opts) (max_tokens opts) (top_p opts))
             (request_headers api_key) = Response None lines"
    and "iter_sse_data env lines = []"
    and "monotonic w (reads w) \<le> monotonic w (Suc (reads w))"
  shows "\<exists>r w'. stream_chat env w api_url api_key model messages opts = Inr (r, w')
           \<and> ttfb_ms r = None \<and> text' r = [] \<and> (\<exists>x. ttc_ms r = Some x \<and> 0 \<le> x)
           \<and> error r = None \<and> receipt_path r = None \<and> files w' = files w"
  using assms
  by (simp add: stream_chat_def run_session_def try_request_def now_def new_session_def
        new_StreamResult_def ebind_def Let_def)

theorem empty_stream_session_witness:
  "iter_sse_data test_env [Item (Bytes '': keep-alive''), Item (Bytes '''')] = []
   \<and> (\<exists>r w'. stream_chat test_env
                 (test_world (Response None [Item (Bytes '': keep-alive''), Item (Bytes '''')]))
                 ''https://api'' ''key'' ''m'' [] (default_opts\<lparr>save_receipt := True\<rparr>)
               = Inr (r, w')
         \<and> ttfb_ms r = None \<and> text' r = [] \<and> (\<exists>x. ttc_ms r = Some x \<and> 0 \<le> x)
         \<and> error r = None \<and> receipt_path r = None \<and> files w' = Map.empty)"
proof -
  let ?lines = "[Item (Bytes '': keep-alive''), Item (Bytes '''')]"
  let ?w = "test_world (Response None ?lines)"
  let ?opts = "default_opts\<lparr>save_receipt := True\<rparr>"
  have d: "iter_sse_data test_env ?lines = []"
    by (simp add: decode_line_def test_env_simps startswith_def strip_def is_space_def Let_def)
  have p: "post ?w ''https://api''
             (build_payload ''m'' [] (temperature ?opts) (max_tokens ?opts) (top_p ?opts))
             (request_headers ''key'') = Response None ?lines"
    by (simp add: test_world_def)
  have m: "monotonic ?w (reads ?w) \<le> monotonic ?w (Suc (reads ?w))"
    by (simp add: test_world_def)
  have f: "files ?w = Map.empty" by (simp add: test_world_def)
  from empty_stream_session [OF p d m] show ?thesis using d by (simp add: f)
qed

subsection \<open>A receipt for a failed session\<close>

text \<open>
  C10. When receipt saving is requested and the response delivers at least one frame
  before a transport-level failure, a returned session carries the failure as its error
  and a receipt path, and the receipt file of that path holds the frames received before
  the failure, their count and the digest of their joined text.
\<close>

theorem receipt_written_after_failure:
  assumes "save_receipt opts"
    and "transport_failure env
           (post w api_url
              (build_payload model messages (temperature opts) (max_tokens opts) (top_p opts))
              (request_headers api_key)) e evs"
    and "evs \<noteq> []"
    and "stream_chat env w api_url api_key model messages opts = Inr (r, w')"
  shows "error r = Some e
       \<and> (\<exists>p d. receipt_path r = Some p \<and> files w' p = Some d
                \<and> rc_raw_events d = Some evs \<and> rc_event_count d = Some (length evs)
                \<and> rc_events_hash d = Some (hash env (join newline evs)))"
proof -
  let ?payload = "build_payload model messages (temperature opts) (max_tokens opts) (top_p opts)"
  from stream_chat_Inr [OF assms(4)] obtain st w2 where
    tr: "try_request env (monotonic w (reads w)) (stall_threshold_ms opts)
                   (new_session (monotonic w (reads w))) (w\<lparr>reads := Suc (reads w)\<rparr>) api_url
                   ?payload (request_headers api_key) = Inr (st, w2)"
    and r: "(if save_receipt opts \<and> raw_events st \<noteq> []
              then (r, w') =
                (let pw = write_receipt env (w2\<lparr>reads := Suc (reads w2)\<rparr>) (receipt_dir opts) model
                       ?payload (raw_events st)
                 in ((result st)\<lparr>ttc_ms := Some ((monotonic w2 (reads w2) - monotonic w (reads w)) * 1000),
                                 receipt_path := Some (fst pw)\<rparr>, snd pw))
              else (r, w') =
                ((result st)\<lparr>ttc_ms := Some ((monotonic w2 (reads w2) - monotonic w (reads w)) * 1000)\<rparr>,
                 w2\<lparr>reads := Suc (reads w2)\<rparr>))"
    by blast
  have tf: "transport_failure env
              (post (w\<lparr>reads := Suc (reads w)\<rparr>) api_url ?payload (request_headers api_key)) e evs"
    using assms(2) by simp
  from try_request_failure [OF tf tr]
  have f: "raw_events st = evs" "error (result st) = Some e"
    by (simp_all add: new_session_def)
  obtain p w4 where
    wr: "write_receipt env (w2\<lparr>reads := Suc (reads w2)\<rparr>) (receipt_dir opts) model ?payload evs
           = (p, w4)"
    by (cases "write_receipt env (w2\<lparr>reads := Suc (reads w2)\<rparr>) (receipt_dir opts) model
                 ?payload evs")
  from r assms(1,3) f(1) wr have
    rr: "r = (result st)\<lparr>ttc_ms := Some ((monotonic w2 (reads w2) - monotonic w (reads w)) * 1000),
                          receipt_path := Some p\<rparr>" "w' = w4"
    by (simp_all add: Let_def)
  from write_receipt_file [OF wr] rr f show ?thesis by simp
qed

theorem receipt_written_after_failure_witness:
  "transport_failure test_env
     (Response None (data_lines [frame_hi, frame_there] @ [Raise ''connection reset'']))
     ''connection reset'' [frame_hi, frame_there]
   \<and> (\<exists>r w'. stream_chat test_env
                 (test_world (Response None
                    (data_lines [frame_hi, frame_there] @ [Raise ''connection reset''])))
                 ''https://api'' ''key'' ''m'' [] (default_opts\<lparr>save_receipt := True\<rparr>)
               = Inr (r, w')
         \<and> error r = Some ''connection reset''
         \<and> (\<exists>p d. receipt_path r = Some p \<and> files w' p = Some d
                  \<and> rc_raw_events d = Some [frame_hi, frame_there]))"
proof -
  let ?lines = "data_lines [frame_hi, frame_there] @ [Raise ''connection reset'']"
  let ?w = "test_world (Response None ?lines)"
  let ?opts = "default_opts\<lparr>save_receipt := True\<rparr>"
  have h: "transport_failure test_env (Response None ?lines)
              ''connection reset'' [frame_hi, frame_there]"
    by (simp add: decode_examples is_done_simps)
  have p: "post ?w ''https://api''
              (build_payload ''m'' [] (temperature ?opts) (max_tokens ?opts) (top_p ?opts))
              (request_headers ''key'') = Response None ?lines"
    by (simp add: test_world_def)
  have sv: "save_receipt ?opts" by simp
  have "\<exists>r w'. stream_chat test_env ?w ''https://api'' ''key'' ''m'' [] ?opts = Inr (r, w')"
    by (simp add: run_defs write_receipt_def test_world_def decode_examples
          test_env_simps test_loads_simps is_done_simps)
  then obtain r w' where
    s: "stream_chat test_env ?w ''https://api'' ''key'' ''m'' [] ?opts = Inr (r, w')"
    by blast
  have h': "transport_failure test_env
              (post ?w ''https://api''
                 (build_payload ''m'' [] (temperature ?opts) (max_tokens ?opts) (top_p ?opts))
                 (request_headers ''key''))
              ''connection reset'' [frame_hi, frame_there]"
    unfolding p by (rule h)
  have ne: "[frame_hi, frame_there] \<noteq> []" by simp
  from receipt_written_after_failure [OF sv h' ne s]
  have "error r = Some ''connection reset''
         \<and> (\<exists>p d. receipt_path r = Some p \<and> files w' p = Some d
                  \<and> rc_raw_events d = Some [frame_hi, frame_there])"
    by auto
  with s h show ?thesis by blast
qed

end
